theory Spec2Isabelle
  imports Main "HOL-Library.Word"
begin

section \<open>Strings and decimal numerals\<close>

text \<open>
  JavaScript strings are modelled as HOL strings (lists of 8-bit characters).
  Template literals and \<^verbatim>\<open>toString\<close> on numbers print decimal numerals.
\<close>

definition is_digit :: "char \<Rightarrow> bool" where
  "is_digit c = (c \<in> set ''0123456789'')"

definition digit_val :: "char \<Rightarrow> nat" where
  "digit_val c = (of_char c :: nat) - 48"

definition digit_char :: "nat \<Rightarrow> char" where
  "digit_char d = ''0123456789'' ! d"

fun show_nat :: "nat \<Rightarrow> string" where
  "show_nat n = (if n < 10 then [digit_char n] else show_nat (n div 10) @ [digit_char (n mod 10)])"

declare show_nat.simps [simp del]

definition nat_of_digits :: "string \<Rightarrow> nat" where
  "nat_of_digits ds = foldl (\<lambda>a c. 10 * a + digit_val c) 0 ds"

definition show_int :: "int \<Rightarrow> string" where
  "show_int i = (if i < 0 then CHR ''-'' # show_nat (nat (- i)) else show_nat (nat i))"

section \<open>URL objects\<close>

text \<open>
  The \<^verbatim>\<open>URL\<close> class belongs to the host runtime. A URL object is modelled by the
  components of its URL record as the URL Standard names them; parsing a URL from text
  is outside the model. \<open>hostname = None\<close> is the null host, \<open>port = None\<close> the null
  port, \<open>query = None\<close> and \<open>fragment = None\<close> the null query and fragment.
  \<open>pathname\<close> is the serialised path.
\<close>

record URL =
  scheme :: string
  username :: string
  password :: string
  hostname :: "string option"
  port :: "nat option"
  pathname :: string
  query :: "string option"
  fragment :: "string option"

definition is_special :: "string \<Rightarrow> bool" where
  "is_special s = (s \<in> set [''ftp'', ''file'', ''http'', ''https'', ''ws'', ''wss''])"

definition default_port :: "string \<Rightarrow> nat option" where
  "default_port s =
     (if s = ''ftp'' then Some 21
      else if s = ''http'' then Some 80
      else if s = ''https'' then Some 443
      else if s = ''ws'' then Some 80
      else if s = ''wss'' then Some 443
      else None)"

text \<open>
  Every URL object the runtime hands out has a null port whenever the port is the
  default port of its scheme (the parser and the setters keep it so).
\<close>

definition port_normalised :: "URL \<Rightarrow> bool" where
  "port_normalised u = (port u = None \<or> port u \<noteq> default_port (scheme u))"

text \<open>The \<^verbatim>\<open>protocol\<close> getter: the scheme followed by a colon.\<close>

definition protocol :: "URL \<Rightarrow> string" where
  "protocol u = scheme u @ '':''"

text \<open>The \<^verbatim>\<open>host\<close> getter: empty for a null host, else the host, with the port when it is not null.\<close>

definition host :: "URL \<Rightarrow> string" where
  "host u =
     (case hostname u of
        None \<Rightarrow> ''''
      | Some h \<Rightarrow> (case port u of None \<Rightarrow> h | Some p \<Rightarrow> h @ '':'' @ show_nat p))"

text \<open>
  The URL serialiser (\<^verbatim>\<open>toString\<close>, \<^verbatim>\<open>href\<close>, and what string concatenation
  with a URL object uses).
\<close>

definition href :: "URL \<Rightarrow> string" where
  "href u =
     scheme u @ '':'' @
     (case hostname u of
        Some h \<Rightarrow>
          ''//'' @
          (if username u \<noteq> '''' \<or> password u \<noteq> ''''
           then username u @ (if password u \<noteq> '''' then '':'' @ password u else '''') @ ''@''
           else '''') @
          h @ (case port u of None \<Rightarrow> '''' | Some p \<Rightarrow> '':'' @ show_nat p)
      | None \<Rightarrow> (if take 2 (pathname u) = ''//'' then ''/.'' else '''')) @
     pathname u @
     (case query u of None \<Rightarrow> '''' | Some q \<Rightarrow> ''?'' @ q) @
     (case fragment u of None \<Rightarrow> '''' | Some f \<Rightarrow> ''#'' @ f)"

text \<open>
  The \<^verbatim>\<open>protocol\<close> setter. The URL Standard runs its parser on the given value
  from the scheme start state with the URL as state override: the value's scheme is read
  up to the first colon (a letter, then letters, digits, \<^verbatim>\<open>+\<close>, \<^verbatim>\<open>-\<close>, \<^verbatim>\<open>.\<close>,
  lower-cased); the assignment is silently dropped when the value has no valid scheme,
  when exactly one of the old and the new scheme is special, when the new scheme is
  \<^verbatim>\<open>file\<close> and the URL has credentials or a port, or when the old scheme is
  \<^verbatim>\<open>file\<close> and the host is empty. Otherwise the scheme is replaced and a port equal
  to the new scheme's default port becomes null.
\<close>

definition is_alpha :: "char \<Rightarrow> bool" where
  "is_alpha c = (c \<in> set ''abcdefghijklmnopqrstuvwxyzABCDEFGHIJKLMNOPQRSTUVWXYZ'')"

definition lower_char :: "char \<Rightarrow> char" where
  "lower_char c =
     (case map_of (zip ''ABCDEFGHIJKLMNOPQRSTUVWXYZ'' ''abcdefghijklmnopqrstuvwxyz'') c of
        Some l \<Rightarrow> l
      | None \<Rightarrow> c)"

definition scheme_of_value :: "string \<Rightarrow> string option" where
  "scheme_of_value v =
     (let buf = takeWhile (\<lambda>c. c \<noteq> CHR '':'') v
      in if buf \<noteq> [] \<and> is_alpha (hd buf)
            \<and> list_all (\<lambda>c. is_alpha c \<or> is_digit c \<or> c \<in> set ''+-.'') buf
         then Some (map lower_char buf)
         else None)"

definition set_protocol :: "URL \<Rightarrow> string \<Rightarrow> URL" where
  "set_protocol u v =
     (case scheme_of_value v of
        None \<Rightarrow> u
      | Some buf \<Rightarrow>
          if is_special (scheme u) \<noteq> is_special buf then u
          else if (username u \<noteq> '''' \<or> password u \<noteq> '''' \<or> port u \<noteq> None) \<and> buf = ''file'' then u
          else if scheme u = ''file'' \<and> hostname u = Some '''' then u
          else u\<lparr>scheme := buf,
                 port := (if port u = default_port buf then None else port u)\<rparr>)"

section \<open>The client object\<close>

text \<open>
  \<^verbatim>\<open>ClientV3\<close> extends \<^verbatim>\<open>Client\<close>, whose constructor is not among the sources at
  hand; it leaves the tunnel server's base URL in the field \<^verbatim>\<open>base\<close>. The
  constructor below starts where \<^verbatim>\<open>super(3, server)\<close> has returned and takes that
  field as its argument. \<^verbatim>\<open>new URL(this.base)\<close> copies the URL.
\<close>

record ClientV3 =
  ws :: URL
  http :: URL
  ready :: bool

definition ClientV3_constructor :: "URL \<Rightarrow> ClientV3" where
  "ClientV3_constructor base =
     (let this_ws = base;
          this_http = base;
          this_ws' = (if protocol this_ws = ''https:''
                      then set_protocol this_ws ''wss:''
                      else set_protocol this_ws ''ws:'')
      in \<lparr>ws = this_ws', http = this_http, ready = True\<rparr>)"

section \<open>JSON values and errors\<close>

text \<open>
  A parsed JSON value; a number keeps its literal, since nothing here computes with
  numbers. Every exception the code can raise or meet is a value as well.
  \<open>BareError\<close> is the repository's tunnel fault (physical status and parsed body);
  \<open>CodecError\<close> is the header codec's failure; \<open>NetworkError\<close> stands for a
  rejected \<^verbatim>\<open>fetch\<close>.
\<close>

datatype json =
    JNull
  | JBool bool
  | JNumber string
  | JString string
  | JArray "json list"
  | JObject "(string \<times> json) list"

datatype js_error =
    TypeError string
  | SyntaxError
  | InvalidStateError
  | InvalidAccessError
  | BareError nat json
  | CodecError
  | NetworkError

section \<open>Objects and their property order\<close>

text \<open>
  An ordinary object is the list of its own properties in the order the language
  enumerates them (\<^verbatim>\<open>Object.entries\<close>, \<^verbatim>\<open>JSON.stringify\<close>): array-index keys
  first, in ascending numeric order, then the other keys in creation order. An array
  index is the canonical decimal numeral of a number below \<open>2\<^sup>3\<^sup>2 - 1\<close>.
  Defining a property under an existing key replaces the value where the key stands.
\<close>

definition array_index :: "string \<Rightarrow> nat option" where
  "array_index k =
     (if k \<noteq> [] \<and> list_all is_digit k \<and> (k = ''0'' \<or> hd k \<noteq> CHR ''0'')
         \<and> nat_of_digits k < 4294967295
      then Some (nat_of_digits k) else None)"

fun insert_index :: "nat \<Rightarrow> string \<Rightarrow> 'v \<Rightarrow> (string \<times> 'v) list \<Rightarrow> (string \<times> 'v) list" where
  "insert_index i k v [] = [(k, v)]"
| "insert_index i k v (p # ps) =
     (case array_index (fst p) of
        None \<Rightarrow> (k, v) # p # ps
      | Some j \<Rightarrow> if i < j then (k, v) # p # ps else p # insert_index i k v ps)"

fun replace_value :: "string \<Rightarrow> 'v \<Rightarrow> (string \<times> 'v) list \<Rightarrow> (string \<times> 'v) list" where
  "replace_value k v [] = []"
| "replace_value k v (p # ps) = (if fst p = k then (k, v) # ps else p # replace_value k v ps)"

definition obj_set :: "(string \<times> 'v) list \<Rightarrow> string \<Rightarrow> 'v \<Rightarrow> (string \<times> 'v) list" where
  "obj_set ps k v =
     (if k \<in> fst ` set ps then replace_value k v ps
      else case array_index k of
             None \<Rightarrow> ps @ [(k, v)]
           | Some i \<Rightarrow> insert_index i k v ps)"

text \<open>\<^verbatim>\<open>Object.fromEntries\<close>: the entries are defined one after the other on a fresh object.\<close>

definition Object_fromEntries :: "(string \<times> 'v) list \<Rightarrow> (string \<times> 'v) list" where
  "Object_fromEntries es = foldl (\<lambda>obj e. obj_set obj (fst e) (snd e)) [] es"

text \<open>
  \<^verbatim>\<open>Object.entries\<close> of a parsed JSON value: the properties of an object; the
  elements of an array under their indices; the characters of a string under their
  indices; nothing for a number or a boolean; a \<^verbatim>\<open>TypeError\<close> for \<^verbatim>\<open>null\<close>.
\<close>

definition Object_entries :: "json \<Rightarrow> js_error + (string \<times> json) list" where
  "Object_entries v =
     (case v of
        JNull \<Rightarrow> Inl (TypeError ''Cannot convert undefined or null to object'')
      | JBool b \<Rightarrow> Inr []
      | JNumber n \<Rightarrow> Inr []
      | JString s \<Rightarrow> Inr (map (\<lambda>i. (show_nat i, JString [s ! i])) [0..<length s])
      | JArray vs \<Rightarrow> Inr (map (\<lambda>i. (show_nat i, vs ! i)) [0..<length vs])
      | JObject ps \<Rightarrow> Inr ps)"

text \<open>
  Reading a property of a parsed JSON value (\<^verbatim>\<open>message.type\<close>): \<^verbatim>\<open>null\<close> has no
  properties and the read throws; an object yields its own property or
  \<^verbatim>\<open>undefined\<close> (\<open>None\<close>); the other values have no property of the names read here.
\<close>

definition get_property :: "json \<Rightarrow> string \<Rightarrow> js_error + json option" where
  "get_property v k =
     (case v of
        JNull \<Rightarrow> Inl (TypeError ''Cannot read properties of null'')
      | JObject ps \<Rightarrow> Inr (map_of ps k)
      | _ \<Rightarrow> Inr None)"

section \<open>JSON text\<close>

text \<open>
  \<^verbatim>\<open>JSON.parse\<close> and \<^verbatim>\<open>JSON.stringify\<close> belong to the host runtime. They are
  modelled by a lexer and a parser that each read their input once, left to right, so
  that both are total by structural recursion. A number keeps its literal (nothing
  here computes with numbers); a \<^verbatim>\<open>\u\<close> escape contributes the UTF-8 bytes of its
  code unit.
\<close>

datatype token =
    TLBrace | TRBrace | TLBracket | TRBracket | TColon | TComma
  | TString string | TNumber string | TTrue | TFalse | TNull

datatype numst = NMinus | NZero | NInt | NDot | NFrac | NE | NESign | NExp

datatype lexst =
    LStart
  | LString string
  | LEscape string
  | LUnicode string string
  | LNumber numst string
  | LLiteral string token

definition json_space :: "char \<Rightarrow> bool" where
  "json_space c = (c \<in> set [CHR '' '', CHR 0x09, CHR 0x0A, CHR 0x0D])"

definition lex_start :: "char \<Rightarrow> (lexst \<times> token list) option" where
  "lex_start c =
     (if json_space c then Some (LStart, [])
      else if c = CHR ''{'' then Some (LStart, [TLBrace])
      else if c = CHR ''}'' then Some (LStart, [TRBrace])
      else if c = CHR ''['' then Some (LStart, [TLBracket])
      else if c = CHR '']'' then Some (LStart, [TRBracket])
      else if c = CHR '':'' then Some (LStart, [TColon])
      else if c = CHR '','' then Some (LStart, [TComma])
      else if c = CHR 0x22 then Some (LString [], [])
      else if c = CHR ''-'' then Some (LNumber NMinus [c], [])
      else if c = CHR ''0'' then Some (LNumber NZero [c], [])
      else if is_digit c then Some (LNumber NInt [c], [])
      else if c = CHR ''t'' then Some (LLiteral ''rue'' TTrue, [])
      else if c = CHR ''f'' then Some (LLiteral ''alse'' TFalse, [])
      else if c = CHR ''n'' then Some (LLiteral ''ull'' TNull, [])
      else None)"

definition num_step :: "numst \<Rightarrow> char \<Rightarrow> numst option" where
  "num_step st c =
     (let e = (c = CHR ''e'' \<or> c = CHR ''E'')
      in case st of
           NMinus \<Rightarrow> if c = CHR ''0'' then Some NZero else if is_digit c then Some NInt else None
         | NZero \<Rightarrow> if c = CHR ''.'' then Some NDot else if e then Some NE else None
         | NInt \<Rightarrow> if is_digit c then Some NInt else if c = CHR ''.'' then Some NDot
                   else if e then Some NE else None
         | NDot \<Rightarrow> if is_digit c then Some NFrac else None
         | NFrac \<Rightarrow> if is_digit c then Some NFrac else if e then Some NE else None
         | NE \<Rightarrow> if c = CHR ''+'' \<or> c = CHR ''-'' then Some NESign
                 else if is_digit c then Some NExp else None
         | NESign \<Rightarrow> if is_digit c then Some NExp else None
         | NExp \<Rightarrow> if is_digit c then Some NExp else None)"

definition num_final :: "numst \<Rightarrow> bool" where
  "num_final st = (st = NZero \<or> st = NInt \<or> st = NFrac \<or> st = NExp)"

definition escapes :: "(char \<times> char) list" where
  "escapes =
     [(CHR 0x22, CHR 0x22), (CHR 0x5C, CHR 0x5C), (CHR ''/'', CHR ''/''),
      (CHR ''b'', CHR 0x08), (CHR ''f'', CHR 0x0C), (CHR ''n'', CHR 0x0A),
      (CHR ''r'', CHR 0x0D), (CHR ''t'', CHR 0x09)]"

definition hex_val :: "char \<Rightarrow> nat option" where
  "hex_val c =
     (if is_digit c then Some (digit_val c)
      else map_of
        [(CHR ''a'', 10), (CHR ''b'', 11), (CHR ''c'', 12), (CHR ''d'', 13), (CHR ''e'', 14),
         (CHR ''f'', 15), (CHR ''A'', 10), (CHR ''B'', 11), (CHR ''C'', 12), (CHR ''D'', 13),
         (CHR ''E'', 14), (CHR ''F'', 15)] c)"

definition utf8 :: "nat \<Rightarrow> string" where
  "utf8 n =
     (if n < 128 then [char_of n]
      else if n < 2048 then [char_of (192 + n div 64), char_of (128 + n mod 64)]
      else [char_of (224 + n div 4096), char_of (128 + n div 64 mod 64), char_of (128 + n mod 64)])"

definition lex_step :: "lexst \<Rightarrow> char \<Rightarrow> (lexst \<times> token list) option" where
  "lex_step st c =
     (case st of
        LStart \<Rightarrow> lex_start c
      | LString acc \<Rightarrow>
          if c = CHR 0x22 then Some (LStart, [TString acc])
          else if c = CHR 0x5C then Some (LEscape acc, [])
          else if (of_char c :: nat) < 32 then None
          else Some (LString (acc @ [c]), [])
      | LEscape acc \<Rightarrow>
          (case map_of escapes c of
             Some d \<Rightarrow> Some (LString (acc @ [d]), [])
           | None \<Rightarrow> if c = CHR ''u'' then Some (LUnicode acc [], []) else None)
      | LUnicode acc hs \<Rightarrow>
          (case hex_val c of
             None \<Rightarrow> None
           | Some h \<Rightarrow>
               if length hs = 3
               then Some (LString (acc @ utf8 (foldl (\<lambda>a d. 16 * a + the (hex_val d)) 0 (hs @ [c]))), [])
               else Some (LUnicode acc (hs @ [c]), []))
      | LNumber n lexeme \<Rightarrow>
          (case num_step n c of
             Some n' \<Rightarrow> Some (LNumber n' (lexeme @ [c]), [])
           | None \<Rightarrow>
               if num_final n
               then (case lex_start c of
                       None \<Rightarrow> None
                     | Some (st', ts) \<Rightarrow> Some (st', TNumber lexeme # ts))
               else None)
      | LLiteral rest tok \<Rightarrow>
          (case rest of
             [] \<Rightarrow> None
           | r # rs \<Rightarrow>
               if c \<noteq> r then None
               else if rs = [] then Some (LStart, [tok])
               else Some (LLiteral rs tok, [])))"

fun lex :: "lexst \<Rightarrow> string \<Rightarrow> token list option" where
  "lex st [] =
     (case st of
        LStart \<Rightarrow> Some []
      | LNumber n lexeme \<Rightarrow> if num_final n then Some [TNumber lexeme] else None
      | _ \<Rightarrow> None)"
| "lex st (c # cs) =
     (case lex_step st c of
        None \<Rightarrow> None
      | Some (st', ts) \<Rightarrow> (case lex st' cs of None \<Rightarrow> None | Some ts' \<Rightarrow> Some (ts @ ts')))"

text \<open>
  The parser keeps the enclosing arrays and objects on a stack: an array with the
  elements read so far, an object with its members so far and the key whose value is
  being read.
\<close>

datatype ctx = CArr "json list" | CObj "(string \<times> json) list" string

datatype pstate =
    PValue "ctx list"
  | PArrFirst "ctx list"
  | PObjFirst "ctx list"
  | PKey "(string \<times> json) list" "ctx list"
  | PColon string "(string \<times> json) list" "ctx list"
  | PAfterArr "json list" "ctx list"
  | PAfterObj "(string \<times> json) list" "ctx list"
  | PDone json

definition reduce :: "json \<Rightarrow> ctx list \<Rightarrow> pstate" where
  "reduce v stack =
     (case stack of
        [] \<Rightarrow> PDone v
      | CArr es # rest \<Rightarrow> PAfterArr (es @ [v]) rest
      | CObj ms k # rest \<Rightarrow> PAfterObj (obj_set ms k v) rest)"

definition parse_value :: "token \<Rightarrow> ctx list \<Rightarrow> pstate option" where
  "parse_value t stack =
     (case t of
        TLBrace \<Rightarrow> Some (PObjFirst stack)
      | TLBracket \<Rightarrow> Some (PArrFirst stack)
      | TString s \<Rightarrow> Some (reduce (JString s) stack)
      | TNumber n \<Rightarrow> Some (reduce (JNumber n) stack)
      | TTrue \<Rightarrow> Some (reduce (JBool True) stack)
      | TFalse \<Rightarrow> Some (reduce (JBool False) stack)
      | TNull \<Rightarrow> Some (reduce JNull stack)
      | _ \<Rightarrow> None)"

definition parse_step :: "pstate \<Rightarrow> token \<Rightarrow> pstate option" where
  "parse_step st t =
     (case st of
        PValue stack \<Rightarrow> parse_value t stack
      | PArrFirst stack \<Rightarrow>
          if t = TRBracket then Some (reduce (JArray []) stack)
          else parse_value t (CArr [] # stack)
      | PObjFirst stack \<Rightarrow>
          (case t of
             TRBrace \<Rightarrow> Some (reduce (JObject []) stack)
           | TString k \<Rightarrow> Some (PColon k [] stack)
           | _ \<Rightarrow> None)
      | PKey ms stack \<Rightarrow> (case t of TString k \<Rightarrow> Some (PColon k ms stack) | _ \<Rightarrow> None)
      | PColon k ms stack \<Rightarrow> if t = TColon then Some (PValue (CObj ms k # stack)) else None
      | PAfterArr es stack \<Rightarrow>
          (case t of
             TComma \<Rightarrow> Some (PValue (CArr es # stack))
           | TRBracket \<Rightarrow> Some (reduce (JArray es) stack)
           | _ \<Rightarrow> None)
      | PAfterObj ms stack \<Rightarrow>
          (case t of
             TComma \<Rightarrow> Some (PKey ms stack)
           | TRBrace \<Rightarrow> Some (reduce (JObject ms) stack)
           | _ \<Rightarrow> None)
      | PDone v \<Rightarrow> None)"

fun parse_tokens :: "pstate \<Rightarrow> token list \<Rightarrow> pstate option" where
  "parse_tokens st [] = Some st"
| "parse_tokens st (t # ts) =
     (case parse_step st t of None \<Rightarrow> None | Some st' \<Rightarrow> parse_tokens st' ts)"

definition JSON_parse :: "string \<Rightarrow> js_error + json" where
  "JSON_parse text =
     (case lex LStart text of
        None \<Rightarrow> Inl SyntaxError
      | Some ts \<Rightarrow>
          (case parse_tokens (PValue []) ts of
             Some (PDone v) \<Rightarrow> Inr v
           | _ \<Rightarrow> Inl SyntaxError))"

text \<open>
  \<^verbatim>\<open>JSON.stringify\<close> without indentation: no white space, members in property
  order, strings quoted with the two-character escapes and \<^verbatim>\<open>\u00XX\<close> for the
  other control characters.
\<close>

definition hex_digit :: "nat \<Rightarrow> char" where
  "hex_digit d = ''0123456789abcdef'' ! d"

definition quote_char :: "char \<Rightarrow> string" where
  "quote_char c =
     (if c = CHR 0x22 then [CHR 0x5C, CHR 0x22]
      else if c = CHR 0x5C then [CHR 0x5C, CHR 0x5C]
      else if c = CHR 0x08 then [CHR 0x5C, CHR ''b'']
      else if c = CHR 0x0C then [CHR 0x5C, CHR ''f'']
      else if c = CHR 0x0A then [CHR 0x5C, CHR ''n'']
      else if c = CHR 0x0D then [CHR 0x5C, CHR ''r'']
      else if c = CHR 0x09 then [CHR 0x5C, CHR ''t'']
      else if (of_char c :: nat) < 32
      then [CHR 0x5C, CHR ''u'', CHR ''0'', CHR ''0'',
            hex_digit ((of_char c :: nat) div 16), hex_digit ((of_char c :: nat) mod 16)]
      else [c])"

definition quote :: "string \<Rightarrow> string" where
  "quote s = [CHR 0x22] @ concat (map quote_char s) @ [CHR 0x22]"

fun intercalate :: "string \<Rightarrow> string list \<Rightarrow> string" where
  "intercalate sep [] = []"
| "intercalate sep [x] = x"
| "intercalate sep (x # y # ys) = x @ sep @ intercalate sep (y # ys)"

fun JSON_stringify :: "json \<Rightarrow> string" where
  "JSON_stringify JNull = ''null''"
| "JSON_stringify (JBool b) = (if b then ''true'' else ''false'')"
| "JSON_stringify (JNumber n) = n"
| "JSON_stringify (JString s) = quote s"
| "JSON_stringify (JArray vs) = ''['' @ intercalate '','' (map JSON_stringify vs) @ '']''"
| "JSON_stringify (JObject ps) =
     ''{'' @ intercalate '','' (map (\<lambda>p. quote (fst p) @ '':'' @ JSON_stringify (snd p)) ps) @ ''}''"

section \<open>Header objects\<close>

text \<open>
  A \<^verbatim>\<open>RawHeaders\<close> value is an array of name/value pairs. A \<^verbatim>\<open>Headers\<close> object of
  the host runtime is modelled by its combined entries: one entry per name, the name
  in lower case, the values appended under one name joined by a comma and a space,
  which is what \<^verbatim>\<open>get\<close> and iteration show. Names match without regard to case.
  The class's validation of names and values is outside the model.
\<close>

type_synonym RawHeaders = "(string \<times> string) list"

type_synonym Headers = "(string \<times> string) list"

definition lower :: "string \<Rightarrow> string" where
  "lower s = map lower_char s"

definition Headers_get :: "Headers \<Rightarrow> string \<Rightarrow> string option" where
  "Headers_get hs name =
     (case find (\<lambda>p. lower (fst p) = lower name) hs of None \<Rightarrow> None | Some p \<Rightarrow> Some (snd p))"

definition Headers_set :: "Headers \<Rightarrow> string \<Rightarrow> string \<Rightarrow> Headers" where
  "Headers_set hs name v =
     (if Headers_get hs name = None then hs @ [(lower name, v)]
      else map (\<lambda>p. if lower (fst p) = lower name then (fst p, v) else p) hs)"

definition Headers_append :: "Headers \<Rightarrow> string \<Rightarrow> string \<Rightarrow> Headers" where
  "Headers_append hs name v =
     (case Headers_get hs name of
        None \<Rightarrow> hs @ [(lower name, v)]
      | Some old \<Rightarrow> Headers_set hs name (old @ '', '' @ v))"

section \<open>The header codec\<close>

text \<open>
  Modelled from the spec: the module \<^verbatim>\<open>splitHeaderUtil\<close> (\<^verbatim>\<open>splitHeaders\<close>,
  \<^verbatim>\<open>joinHeaders\<close>) is imported by the client but is not among the sources at hand.
  The spec's header codec is pure: the split returns the physical headers and has no
  side effect. It emits a value of at most \<open>threshold\<close>
  characters unchanged, and otherwise partitions it into consecutive substrings of at
  most \<open>threshold\<close> characters under the names \<^verbatim>\<open>name\<close>, \<^verbatim>\<open>name-1\<close>,
  \<^verbatim>\<open>name-2\<close>, ... The threshold is a configuration constant whose value the spec
  leaves open; it is a parameter here.
\<close>

function chunks :: "nat \<Rightarrow> string \<Rightarrow> string list" where
  "chunks n s = (if n = 0 \<or> s = [] then [] else take n s # chunks n (drop n s))"
  by pat_completeness auto
termination
  by (relation "measure (\<lambda>(n, s). length s)") auto

declare chunks.simps [simp del]

definition chunk_name :: "string \<Rightarrow> nat \<Rightarrow> string" where
  "chunk_name name i = (if i = 0 then name else name @ ''-'' @ show_nat i)"

fun number_chunks :: "string \<Rightarrow> nat \<Rightarrow> string list \<Rightarrow> Headers" where
  "number_chunks name i [] = []"
| "number_chunks name i (c # cs) = (chunk_name name i, c) # number_chunks name (Suc i) cs"

definition pieces :: "nat \<Rightarrow> string \<Rightarrow> string list" where
  "pieces threshold v = (if length v \<le> threshold then [v] else chunks threshold v)"

definition split_header :: "nat \<Rightarrow> string \<times> string \<Rightarrow> Headers" where
  "split_header threshold h = number_chunks (fst h) 0 (pieces threshold (snd h))"

definition splitHeaders :: "nat \<Rightarrow> Headers \<Rightarrow> Headers" where
  "splitHeaders threshold hs = concat (map (split_header threshold) hs)"

text \<open>
  Modelled from the spec: the join groups the physical entries by base name. A name
  that ends in \<^verbatim>\<open>-<n>\<close> is a numbered continuation: the suffix is stripped if an
  entry named by the rest exists, and a continuation without its base header is a codec
  error. Each group is sorted by suffix (the bare name counts as suffix 0) and its values
  are concatenated in that order; a group whose suffixes are not exactly 0, 1, 2, ... is
  a codec error. The logical entries come out in the order in which their groups first
  appear.
\<close>

definition continuation :: "string \<Rightarrow> (string \<times> nat) option" where
  "continuation name =
     (let r = rev name; ds = takeWhile is_digit r; rest = dropWhile is_digit r
      in if ds \<noteq> [] \<and> rest \<noteq> [] \<and> hd rest = CHR ''-''
         then Some (rev (tl rest), nat_of_digits (rev ds))
         else None)"

definition chunk_key :: "Headers \<Rightarrow> string \<Rightarrow> js_error + string \<times> nat" where
  "chunk_key hs name =
     (case continuation name of
        None \<Rightarrow> Inr (name, 0)
      | Some (b, n) \<Rightarrow> if b \<in> fst ` set hs then Inr (b, n) else Inl CodecError)"

fun collect :: "('e + 'a) list \<Rightarrow> 'e + 'a list" where
  "collect [] = Inr []"
| "collect (Inl e # rs) = Inl e"
| "collect (Inr x # rs) = (case collect rs of Inl e \<Rightarrow> Inl e | Inr xs \<Rightarrow> Inr (x # xs))"

definition keyed :: "Headers \<Rightarrow> js_error + ((string \<times> nat) \<times> string) list" where
  "keyed hs =
     collect (map (\<lambda>p. case chunk_key hs (fst p) of
                          Inl e \<Rightarrow> Inl e
                        | Inr k \<Rightarrow> Inr (k, snd p)) hs)"

fun first_occurrences :: "'a list \<Rightarrow> 'a list" where
  "first_occurrences [] = []"
| "first_occurrences (x # xs) = x # filter (\<lambda>y. y \<noteq> x) (first_occurrences xs)"

definition join_group :: "((string \<times> nat) \<times> string) list \<Rightarrow> string \<Rightarrow> js_error + string \<times> string" where
  "join_group ks b =
     (let g = sort_key fst
                (map (\<lambda>p. (snd (fst p), snd p)) (filter (\<lambda>p. fst (fst p) = b) ks))
      in if map fst g = [0..<length g] then Inr (b, concat (map snd g)) else Inl CodecError)"

definition joinHeaders :: "Headers \<Rightarrow> js_error + Headers" where
  "joinHeaders hs =
     (case keyed hs of
        Inl e \<Rightarrow> Inl e
      | Inr ks \<Rightarrow> collect (map (join_group ks) (first_occurrences (map (\<lambda>p. fst (fst p)) ks))))"

text \<open>
  A logical collection can be told apart again after the split when its names are
  distinct and none of them has the form \<^verbatim>\<open>b-<n>\<close> of a numbered continuation.
\<close>

definition unambiguous :: "Headers \<Rightarrow> bool" where
  "unambiguous hs =
     (distinct (map fst hs) \<and> list_all (\<lambda>h. continuation (fst h) = None) hs)"

text \<open>
  The pieces of one logical entry under the keys that the join gives to the physical
  entries carrying them: the name of the entry and the number of the piece.
\<close>

definition keyed_pieces :: "nat \<Rightarrow> string \<times> string \<Rightarrow> ((string \<times> nat) \<times> string) list" where
  "keyed_pieces T h =
     map (\<lambda>j. ((fst h, j), pieces T (snd h) ! j)) [0..<length (pieces T (snd h))]"

section \<open>The HTTP tunnel client\<close>

text \<open>
  A \<^verbatim>\<open>Response\<close> of the host's \<^verbatim>\<open>fetch\<close>: its status, its headers and its body.
  \<^verbatim>\<open>ok\<close> holds for the statuses 200 to 299; \<^verbatim>\<open>json()\<close> parses the body text.
\<close>

record Response =
  r_status :: nat
  r_headers :: Headers
  r_body :: string

definition ok :: "Response \<Rightarrow> bool" where
  "ok r = (200 \<le> r_status r \<and> r_status r \<le> 299)"

definition Response_json :: "Response \<Rightarrow> js_error + json" where
  "Response_json r = JSON_parse (r_body r)"

text \<open>
  \<^verbatim>\<open>parseInt\<close> with no radix: leading (ASCII) white space is skipped, a sign is read, a
  \<^verbatim>\<open>0x\<close> prefix selects base sixteen, and the longest run of digits gives the
  number; no digit gives \<^verbatim>\<open>NaN\<close>. (The rounding of numerals too long for a double is
  outside the model.)
\<close>

datatype number = Num int | NaN

definition js_space :: "char \<Rightarrow> bool" where
  "js_space c = (c \<in> set [CHR 0x09, CHR 0x0A, CHR 0x0B, CHR 0x0C, CHR 0x0D, CHR '' ''])"

definition parseInt :: "string \<Rightarrow> number" where
  "parseInt s =
     (let s1 = dropWhile js_space s;
          neg = (take 1 s1 = ''-'');
          s2 = (if take 1 s1 = ''-'' \<or> take 1 s1 = ''+'' then drop 1 s1 else s1);
          hex = (take 2 s2 = ''0x'' \<or> take 2 s2 = ''0X'');
          radix = (if hex then 16 else 10);
          s3 = (if hex then drop 2 s2 else s2);
          ds = takeWhile (\<lambda>c. case hex_val c of None \<Rightarrow> False | Some d \<Rightarrow> d < radix) s3;
          n = foldl (\<lambda>a c. radix * a + the (hex_val c)) 0 ds
      in if ds = [] then NaN else Num (if neg then - int n else int n))"

text \<open>
  \<^verbatim>\<open>Partial<BareResponseHeaders>\<close>: each field is set or left unset (\<open>None\<close>). The
  entries of the decoded \<^verbatim>\<open>x-bare-headers\<close> are whatever JSON values the text holds.
\<close>

record BareResponseHeaders =
  b_headers :: "(string \<times> json) list option"
  b_status :: "number option"
  b_statusText :: "string option"

definition readBareResponse :: "Response \<Rightarrow> js_error + BareResponseHeaders" where
  "readBareResponse response =
     (if \<not> ok response
      then (case Response_json response of
              Inl e \<Rightarrow> Inl e
            | Inr j \<Rightarrow> Inl (BareError (r_status response) j))
      else
        (case joinHeaders (r_headers response) of
           Inl e \<Rightarrow> Inl e
         | Inr responseHeaders \<Rightarrow>
            (let result = \<lparr>b_headers = None, b_status = None, b_statusText = None\<rparr>;
                 result = (case Headers_get responseHeaders ''x-bare-status'' of
                             None \<Rightarrow> result
                           | Some xBareStatus \<Rightarrow> result\<lparr>b_status := Some (parseInt xBareStatus)\<rparr>);
                 result = (case Headers_get responseHeaders ''x-bare-status-text'' of
                             None \<Rightarrow> result
                           | Some xBareStatusText \<Rightarrow> result\<lparr>b_statusText := Some xBareStatusText\<rparr>)
             in (case Headers_get responseHeaders ''x-bare-headers'' of
                   None \<Rightarrow> Inr result
                 | Some xBareHeaders \<Rightarrow>
                     (case JSON_parse xBareHeaders of
                        Inl e \<Rightarrow> Inl e
                      | Inr v \<Rightarrow>
                          (case Object_entries v of
                             Inl e \<Rightarrow> Inl e
                           | Inr es \<Rightarrow> Inr (result\<lparr>b_headers := Some es\<rparr>)))))))"

text \<open>The object of string-valued properties that \<^verbatim>\<open>Object.fromEntries\<close> builds, as a JSON value.\<close>

definition headers_object :: "RawHeaders \<Rightarrow> json" where
  "headers_object hs = JObject (map (\<lambda>p. (fst p, JString (snd p))) (Object_fromEntries hs))"

text \<open>
  \<^verbatim>\<open>createBareHeaders\<close>. The split of the codec is a function without side effects
  that returns the physical headers; the source calls it as a statement and then returns
  the header set it has built, so the value of the call goes unused.
\<close>

definition createBareHeaders ::
  "nat \<Rightarrow> URL \<Rightarrow> RawHeaders \<Rightarrow> string list \<Rightarrow> string list \<Rightarrow> int list \<Rightarrow> Headers" where
  "createBareHeaders threshold remote bareHeaders forwardHeaders passHeaders passStatus =
     (let headers = [];
          headers = Headers_set headers ''x-bare-url'' (href remote);
          headers = Headers_set headers ''x-bare-headers'' (JSON_stringify (headers_object bareHeaders));
          headers = foldl (\<lambda>hs header. Headers_append hs ''x-bare-forward-headers'' header)
                      headers forwardHeaders;
          headers = foldl (\<lambda>hs header. Headers_append hs ''x-bare-pass-headers'' header)
                      headers passHeaders;
          headers = foldl (\<lambda>hs status. Headers_append hs ''x-bare-pass-status'' (show_int status))
                      headers passStatus;
          unused = splitHeaders threshold headers
      in headers)"

text \<open>
  \<^verbatim>\<open>request\<close>. The body argument is \<open>None\<close> for \<^verbatim>\<open>undefined\<close>, \<open>Some None\<close> for
  \<^verbatim>\<open>null\<close>; the abort signal is an opaque handle. The host's \<^verbatim>\<open>fetch\<close> and the
  module \<^verbatim>\<open>md5\<close> (not among the sources at hand) are parameters. The outcome records
  what the call leaves behind: the caller's header array after the call, the URL and
  the options handed to \<^verbatim>\<open>fetch\<close>, and how the returned promise settles.
\<close>

record RequestInit =
  credentials :: string
  o_method :: string
  signal :: "nat option"
  duplex :: string
  o_body :: "string option option"
  o_headers :: Headers

record TransferrableResponse =
  t_body :: string
  t_headers :: "(string \<times> json) list option"
  t_status :: "number option"
  t_statusText :: "string option"

record request_outcome =
  caller_headers :: RawHeaders
  fetch_url :: string
  fetch_options :: RequestInit
  settled :: "js_error + TransferrableResponse"

definition request ::
  "nat \<Rightarrow> (string \<Rightarrow> string) \<Rightarrow> (string \<Rightarrow> RequestInit \<Rightarrow> js_error + Response) \<Rightarrow> ClientV3
     \<Rightarrow> URL \<Rightarrow> string \<Rightarrow> string option option \<Rightarrow> RawHeaders \<Rightarrow> nat option \<Rightarrow> request_outcome" where
  "request threshold md5 fetch this remote method' body headers signal' =
     (let options = \<lparr>credentials = ''omit'', o_method = method', signal = signal',
                      duplex = ''half'', o_body = None, o_headers = []\<rparr>;
          options = (if body \<noteq> None then options\<lparr>o_body := body\<rparr> else options);
          headers = headers @ [(''Host'', host remote)];
          options = options\<lparr>o_headers := createBareHeaders threshold remote headers [] [] []\<rparr>;
          url = href (http this) @ ''?cache='' @ md5 (href remote)
      in \<lparr>caller_headers = headers, fetch_url = url, fetch_options = options,
          settled =
            (case fetch url options of
               Inl e \<Rightarrow> Inl e
             | Inr response \<Rightarrow>
                 (case readBareResponse response of
                    Inl e \<Rightarrow> Inl e
                  | Inr readResponse \<Rightarrow>
                      Inr \<lparr>t_body = r_body response,
                           t_headers = b_headers readResponse,
                           t_status = b_status readResponse,
                           t_statusText = b_statusText readResponse\<rparr>))\<rparr>)"

section \<open>The WebSocket tunnel client\<close>

text \<open>
  The socket of one \<^verbatim>\<open>connect\<close> call is a state machine driven by events: the
  events the host dispatches on the socket, and the caller's use of the two returned
  functions. The state holds the socket's ready state, which of the listeners that
  \<^verbatim>\<open>connect\<close> registers are attached (the pass-through listeners are counted, since
  each run of the handshake listener would add a fresh pair), and the variables the
  listeners close over. What the machine does is logged as a list of effects: calls of
  the caller's callbacks, payloads put on the wire (by the open listener, or through the
  returned \<^verbatim>\<open>send\<close>), and exceptions, which escape a listener uncaught or are raised
  to the caller of a returned function. The callbacks are assumed to return normally.
\<close>

datatype payload = Text string | Blob "8 word list" | ArrayBuffer "8 word list"

datatype readyState = CONNECTING | OPEN | CLOSING | CLOSED

datatype event =
    SocketOpen
  | SocketMessage payload
  | SocketClose nat string
  | SocketError
  | CallSend payload
  | CallClose nat string

datatype effect =
    Onopen "json option" string
  | Onmessage payload
  | Onclose nat string
  | Onerror string
  | RawSend payload
  | ReturnedSend payload
  | ReturnedClose nat string
  | Uncaught js_error
  | Raised js_error

record connection =
  url :: URL
  protocols :: "string list"
  requestHeaders :: RawHeaders
  readyState :: readyState
  openListener :: bool
  messageListener :: bool
  closeListener :: bool
  relayMessage :: nat
  relayClose :: nat

text \<open>
  The \<^verbatim>\<open>WebSocket\<close> constructor rejects a URL whose scheme is none of \<^verbatim>\<open>ws\<close>,
  \<^verbatim>\<open>wss\<close>, \<^verbatim>\<open>http\<close>, \<^verbatim>\<open>https\<close>, or that has a fragment, with a \<^verbatim>\<open>SyntaxError\<close>.
\<close>

definition new_WebSocket :: "URL \<Rightarrow> js_error + readyState" where
  "new_WebSocket u =
     (if scheme u \<notin> set [''ws'', ''wss'', ''http'', ''https''] \<or> fragment u \<noteq> None
      then Inl SyntaxError else Inr CONNECTING)"

text \<open>
  \<^verbatim>\<open>connect\<close> up to its \<^verbatim>\<open>return\<close>: the socket is created, the three entries are
  pushed on the caller's array, the handshake listeners and the one-shot open listener
  are attached. The result is the caller's array after the call and the connection.
\<close>

definition connect ::
  "ClientV3 \<Rightarrow> URL \<Rightarrow> string list \<Rightarrow> RawHeaders \<Rightarrow> js_error + RawHeaders \<times> connection" where
  "connect this url' protocols' requestHeaders' =
     (case new_WebSocket (ws this) of
        Inl e \<Rightarrow> Inl e
      | Inr st \<Rightarrow>
          let requestHeaders' = requestHeaders' @ [(''Host'', host url')];
              requestHeaders' = requestHeaders' @ [(''Upgrade'', ''websocket'')];
              requestHeaders' = requestHeaders' @ [(''Connection'', ''Upgrade'')]
          in Inr (requestHeaders',
                  \<lparr>url = url', protocols = protocols', requestHeaders = requestHeaders',
                   readyState = st, openListener = True, messageListener = True,
                   closeListener = True, relayMessage = 0, relayClose = 0\<rparr>))"

text \<open>The Connect control message that the open listener serialises.\<close>

definition connect_message :: "connection \<Rightarrow> json" where
  "connect_message c =
     JObject
       [(''type'', JString ''connect''),
        (''remote'', JString (href (url c))),
        (''protocols'', JArray (map JString (protocols c))),
        (''headers'', headers_object (requestHeaders c)),
        (''forwardHeaders'', JArray [])]"

text \<open>
  The socket's own \<^verbatim>\<open>send\<close>: an \<^verbatim>\<open>InvalidStateError\<close> while connecting, the payload
  on the wire while open, nothing once closing or closed.
\<close>

definition socket_send :: "connection \<Rightarrow> (payload \<Rightarrow> effect) \<Rightarrow> payload \<Rightarrow> js_error + effect list" where
  "socket_send c wire d =
     (case readyState c of
        CONNECTING \<Rightarrow> Inl InvalidStateError
      | OPEN \<Rightarrow> Inr [wire d]
      | _ \<Rightarrow> Inr [])"

definition cleanup :: "connection \<Rightarrow> connection" where
  "cleanup c = c\<lparr>closeListener := False, messageListener := False\<rparr>"

definition messageListener_run :: "connection \<Rightarrow> payload \<Rightarrow> connection \<times> effect list" where
  "messageListener_run c0 d =
     (let c = cleanup c0
      in case d of
           Text t \<Rightarrow>
             (case JSON_parse t of
                Inl e \<Rightarrow> (c, [Uncaught e])
              | Inr message \<Rightarrow>
                  (case get_property message ''type'' of
                     Inl e \<Rightarrow> (c, [Uncaught e])
                   | Inr ty \<Rightarrow>
                       if ty \<noteq> Some (JString ''open'')
                       then (c, [Uncaught (TypeError ''message was not of open type'')])
                       else (case get_property message ''protocol'' of
                               Inl e \<Rightarrow> (c, [Uncaught e])
                             | Inr p \<Rightarrow>
                                 (c\<lparr>relayMessage := Suc (relayMessage c),
                                    relayClose := Suc (relayClose c)\<rparr>,
                                  [Onopen p []]))))
         | _ \<Rightarrow> (c, [Uncaught (TypeError ''the first websocket message was not a text frame'')]))"

definition closeListener_run :: "connection \<Rightarrow> nat \<Rightarrow> string \<Rightarrow> connection \<times> effect list" where
  "closeListener_run c code reason = (cleanup c, [Onclose code reason])"

definition openListener_run :: "connection \<Rightarrow> connection \<times> effect list" where
  "openListener_run c =
     (c, case socket_send c RawSend (Text (JSON_stringify (connect_message c))) of
           Inl e \<Rightarrow> [Uncaught e]
         | Inr fx \<Rightarrow> fx)"

text \<open>
  Dispatching one event. The listeners attached when the dispatch starts run in the
  order of their registration; a listener added during the dispatch does not run for
  this event, one removed before its turn does not run, and an exception in one
  listener does not keep the others from running.
\<close>

definition dispatch :: "connection \<Rightarrow> event \<Rightarrow> connection \<times> effect list" where
  "dispatch c ev =
     (case ev of
        SocketOpen \<Rightarrow>
          (let c1 = c\<lparr>readyState := OPEN\<rparr>
           in if openListener c1 then openListener_run (c1\<lparr>openListener := False\<rparr>) else (c1, []))
      | SocketMessage d \<Rightarrow>
          (let n = relayMessage c;
               (c1, fx) = (if messageListener c then messageListener_run c d else (c, []))
           in (c1, fx @ replicate n (Onmessage d)))
      | SocketClose code reason \<Rightarrow>
          (let n = relayClose c;
               c1 = c\<lparr>readyState := CLOSED\<rparr>;
               (c2, fx) = (if closeListener c1 then closeListener_run c1 code reason else (c1, []))
           in (c2, fx @ replicate n (Onclose code reason)))
      | SocketError \<Rightarrow> (c, [])
      | CallSend d \<Rightarrow>
          (c, case socket_send c ReturnedSend d of Inl e \<Rightarrow> [Raised e] | Inr fx \<Rightarrow> fx)
      | CallClose code reason \<Rightarrow>
          (if code \<noteq> 1000 \<and> (code < 3000 \<or> 4999 < code) then (c, [Raised InvalidAccessError])
           else if 123 < length reason then (c, [Raised SyntaxError])
           else if readyState c = CLOSING \<or> readyState c = CLOSED then (c, [])
           else (c\<lparr>readyState := CLOSING\<rparr>, [ReturnedClose code reason])))"

fun run :: "connection \<Rightarrow> event list \<Rightarrow> connection \<times> effect list" where
  "run c [] = (c, [])"
| "run c (ev # evs) =
     (let (c1, fx) = dispatch c ev; (c2, fx') = run c1 evs in (c2, fx @ fx'))"

definition trace :: "connection \<Rightarrow> event list \<Rightarrow> effect list" where
  "trace c evs = snd (run c evs)"

text \<open>
  Readings of a log and of an event list: the arguments of the \<^verbatim>\<open>onopen\<close> calls, the
  payloads given to \<^verbatim>\<open>onmessage\<close>, the payloads the open listener sent, every payload
  put on the wire, the exceptions that escaped a listener; the payloads of the message
  events and the arguments of the close events.
\<close>

fun onopen_calls :: "effect list \<Rightarrow> (json option \<times> string) list" where
  "onopen_calls [] = []"
| "onopen_calls (Onopen p e # fx) = (p, e) # onopen_calls fx"
| "onopen_calls (_ # fx) = onopen_calls fx"

fun onmessage_calls :: "effect list \<Rightarrow> payload list" where
  "onmessage_calls [] = []"
| "onmessage_calls (Onmessage d # fx) = d # onmessage_calls fx"
| "onmessage_calls (_ # fx) = onmessage_calls fx"

fun raw_sends :: "effect list \<Rightarrow> payload list" where
  "raw_sends [] = []"
| "raw_sends (RawSend d # fx) = d # raw_sends fx"
| "raw_sends (_ # fx) = raw_sends fx"

fun wire :: "effect list \<Rightarrow> payload list" where
  "wire [] = []"
| "wire (RawSend d # fx) = d # wire fx"
| "wire (ReturnedSend d # fx) = d # wire fx"
| "wire (_ # fx) = wire fx"

fun uncaught :: "effect list \<Rightarrow> js_error list" where
  "uncaught [] = []"
| "uncaught (Uncaught e # fx) = e # uncaught fx"
| "uncaught (_ # fx) = uncaught fx"

fun messages :: "event list \<Rightarrow> payload list" where
  "messages [] = []"
| "messages (SocketMessage d # evs) = d # messages evs"
| "messages (_ # evs) = messages evs"

fun closes :: "event list \<Rightarrow> (nat \<times> string) list" where
  "closes [] = []"
| "closes (SocketClose code reason # evs) = (code, reason) # closes evs"
| "closes (_ # evs) = closes evs"

text \<open>No \<^verbatim>\<open>onmessage\<close> call comes before the first \<^verbatim>\<open>onopen\<close> call of a log.\<close>

fun opened_first :: "effect list \<Rightarrow> bool" where
  "opened_first [] = True"
| "opened_first (Onopen p e # fx) = True"
| "opened_first (Onmessage d # fx) = False"
| "opened_first (_ # fx) = opened_first fx"

section \<open>Example values\<close>

text \<open>Concrete inputs on which the theorems below are instantiated.\<close>

definition example_base :: URL where
  "example_base = \<lparr>scheme = ''http'', username = '''', password = '''', hostname = Some ''host'',
     port = None, pathname = ''/p'', query = None, fragment = None\<rparr>"

definition example_secure_base :: URL where
  "example_secure_base = \<lparr>scheme = ''https'', username = '''', password = '''',
     hostname = Some ''host'', port = Some 8443, pathname = ''/p'', query = Some ''k=v'',
     fragment = None\<rparr>"

definition example_odd_base :: URL where
  "example_odd_base = \<lparr>scheme = ''foo'', username = '''', password = '''', hostname = Some ''host'',
     port = None, pathname = ''/p'', query = None, fragment = None\<rparr>"

definition example_remote :: URL where
  "example_remote = \<lparr>scheme = ''https'', username = '''', password = '''',
     hostname = Some ''example.com'', port = None, pathname = ''/a'', query = None,
     fragment = None\<rparr>"

definition example_md5 :: "string \<Rightarrow> string" where
  "example_md5 text = ''0cc175b9c0f1b6a831c399e269772661''"

definition fetch_returning :: "Response \<Rightarrow> string \<Rightarrow> RequestInit \<Rightarrow> js_error + Response" where
  "fetch_returning response input init = Inr response"

definition example_threshold :: nat where
  "example_threshold = 3072"

definition array_headers_text :: string where
  \<open>array_headers_text = ''[["content-type","text/plain"]]''\<close>

definition object_headers_text :: string where
  \<open>object_headers_text = ''{"content-type":"text/plain"}''\<close>

definition created_response :: "string \<Rightarrow> Response" where
  "created_response xBareHeaders =
     \<lparr>r_status = 200,
      r_headers = [(''x-bare-status'', ''201''), (''x-bare-status-text'', ''Created''),
                   (''x-bare-headers'', xBareHeaders)],
      r_body = ''payload''\<rparr>"

definition bare_response :: Response where
  "bare_response = \<lparr>r_status = 204, r_headers = [(''content-length'', ''0'')], r_body = ''''\<rparr>"

definition not_found_json :: Response where
  \<open>not_found_json = \<lparr>r_status = 404, r_headers = [], r_body = ''{"message":"not found"}''\<rparr>\<close>

definition not_found_html :: Response where
  "not_found_html = \<lparr>r_status = 404, r_headers = [], r_body = ''<h1>Not Found</h1>''\<rparr>"

definition open_frame_text :: string where
  \<open>open_frame_text = ''{"type":"open","protocol":"chat","setCookies":[]}''\<close>

definition example_connection :: connection where
  "example_connection =
     \<lparr>url = example_remote, protocols = [''chat''],
      requestHeaders = [(''accept'', ''*/*''), (''Host'', ''example.com''),
                        (''Upgrade'', ''websocket''), (''Connection'', ''Upgrade'')],
      readyState = CONNECTING, openListener = True, messageListener = True,
      closeListener = True, relayMessage = 0, relayClose = 0\<rparr>"

definition example_events :: "event list" where
  "example_events =
     [CallSend (Text ''early''), SocketOpen, SocketOpen, SocketMessage (Text open_frame_text),
      CallSend (Text ''hello''), SocketMessage (Text open_frame_text),
      SocketMessage (Blob [1, 2]), SocketClose 1000 ''bye'']"

definition connect_frame_text :: string where
  \<open>connect_frame_text = ''{"type":"connect","remote":"https://example.com/a","protocols":["chat"],"headers":{"accept":"*/*","Host":"example.com","Upgrade":"websocket","Connection":"Upgrade"},"forwardHeaders":[]}''\<close>

definition repeated_headers :: RawHeaders where
  "repeated_headers = [(''a'', ''1''), (''a'', ''2'')]"

definition collapsed_headers_text :: string where
  \<open>collapsed_headers_text = ''{"a":"2","Host":"example.com"}''\<close>

definition accept_headers_text :: string where
  \<open>accept_headers_text = ''{"accept":"*/*","Host":"example.com"}''\<close>

definition long_headers :: Headers where
  "long_headers = [(''x-bare-headers'', ''0123456789''), (''x-bare-url'', ''u'')]"

definition clashing_headers :: Headers where
  "clashing_headers = [(''a'', ''x''), (''a-1'', ''y'')]"

definition stray_headers :: Headers where
  "stray_headers = [(''a-1'', ''y''), (''a-2'', ''z'')]"

section \<open>Endpoint derivation\<close>

lemma scheme_of_value_ws: "scheme_of_value ''ws:'' = Some ''ws''"
  by (simp add: scheme_of_value_def is_alpha_def lower_char_def)

lemma scheme_of_value_wss: "scheme_of_value ''wss:'' = Some ''wss''"
  by (simp add: scheme_of_value_def is_alpha_def lower_char_def)

lemma href_scheme_update: "href (u\<lparr>scheme := s\<rparr>) = s @ drop (length (scheme u)) (href u)"
  by (simp add: href_def split: option.splits)

lemma set_protocol_ws:
  "set_protocol u ''ws:'' =
     (if \<not> is_special (scheme u) \<or> (scheme u = ''file'' \<and> hostname u = Some '''') then u
      else u\<lparr>scheme := ''ws'', port := (if port u = Some 80 then None else port u)\<rparr>)"
  by (simp add: set_protocol_def scheme_of_value_ws is_special_def default_port_def)

lemma set_protocol_wss:
  "set_protocol u ''wss:'' =
     (if \<not> is_special (scheme u) \<or> (scheme u = ''file'' \<and> hostname u = Some '''') then u
      else u\<lparr>scheme := ''wss'', port := (if port u = Some 443 then None else port u)\<rparr>)"
  by (simp add: set_protocol_def scheme_of_value_wss is_special_def default_port_def)

lemma show_nat_8443: "show_nat 8443 = ''8443''"
  by (simp add: show_nat.simps digit_char_def)

lemma show_nat_0: "show_nat 0 = ''0''"
  by (simp add: show_nat.simps digit_char_def)

text \<open>
  C8. For every base URL (a URL object, whose port is never its scheme's default) the
  HTTP tunnel endpoint is the base URL unchanged; for an \<^verbatim>\<open>http\<close> base the WebSocket
  endpoint is the same URL with the scheme \<^verbatim>\<open>ws\<close>, for an \<^verbatim>\<open>https\<close> base the same
  URL with the scheme \<^verbatim>\<open>wss\<close>: every other component, path and query among them,
  is kept, and the serialised endpoint is the serialised base with the scheme replaced.
\<close>

theorem endpoint_derivation:
  assumes "port_normalised base"
  shows "http (ClientV3_constructor base) = base
       \<and> (scheme base = ''http'' \<longrightarrow>
            ws (ClientV3_constructor base) = base\<lparr>scheme := ''ws''\<rparr>
          \<and> href (ws (ClientV3_constructor base)) = ''ws'' @ drop 4 (href base))
       \<and> (scheme base = ''https'' \<longrightarrow>
            ws (ClientV3_constructor base) = base\<lparr>scheme := ''wss''\<rparr>
          \<and> href (ws (ClientV3_constructor base)) = ''wss'' @ drop 5 (href base))"
proof -
  have h: "http (ClientV3_constructor base) = base"
    by (simp add: ClientV3_constructor_def)
  have a: "ws (ClientV3_constructor base) = base\<lparr>scheme := ''ws''\<rparr>" if "scheme base = ''http''"
    using that assms
    by (auto simp: ClientV3_constructor_def protocol_def set_protocol_ws is_special_def
        port_normalised_def default_port_def)
  have b: "ws (ClientV3_constructor base) = base\<lparr>scheme := ''wss''\<rparr>" if "scheme base = ''https''"
    using that assms
    by (auto simp: ClientV3_constructor_def protocol_def set_protocol_wss is_special_def
        port_normalised_def default_port_def)
  show ?thesis
    using h a b by (auto simp: href_scheme_update eval_nat_numeral)
qed

theorem endpoint_derivation_witness:
  "port_normalised example_base \<and> href example_base = ''http://host/p''
   \<and> href (http (ClientV3_constructor example_base)) = ''http://host/p''
   \<and> href (ws (ClientV3_constructor example_base)) = ''ws://host/p''
   \<and> port_normalised example_secure_base
   \<and> href example_secure_base = ''https://host:8443/p?k=v''
   \<and> href (ws (ClientV3_constructor example_secure_base)) = ''wss://host:8443/p?k=v''"
proof -
  have n1: "port_normalised example_base"
    by (simp add: port_normalised_def example_base_def)
  have n2: "port_normalised example_secure_base"
    by (simp add: port_normalised_def example_secure_base_def default_port_def)
  have h1: "href example_base = ''http://host/p''"
    by (simp add: href_def example_base_def)
  have h2: "href example_secure_base = ''https://host:8443/p?k=v''"
    by (simp add: href_def example_secure_base_def show_nat_8443)
  have s1: "scheme example_base = ''http''"
    by (simp add: example_base_def)
  have s2: "scheme example_secure_base = ''https''"
    by (simp add: example_secure_base_def)
  from endpoint_derivation [OF n1] endpoint_derivation [OF n2] n1 n2 h1 h2 s1 s2
  show ?thesis by (simp add: href_scheme_update)
qed

text \<open>
  C10, as amended. An \<^verbatim>\<open>https\<close> base yields the scheme \<^verbatim>\<open>wss\<close>, and only an
  \<^verbatim>\<open>https\<close> base does. Every other base with a special scheme (\<^verbatim>\<open>http\<close>,
  \<^verbatim>\<open>ws\<close>, \<^verbatim>\<open>wss\<close>, \<^verbatim>\<open>ftp\<close>, and \<^verbatim>\<open>file\<close> with a non-empty host) yields
  \<^verbatim>\<open>ws\<close>. For a base whose scheme is not special, or is \<^verbatim>\<open>file\<close> with an empty
  host, the assignment to \<^verbatim>\<open>protocol\<close> has no effect and the WebSocket endpoint is
  the base URL itself.
\<close>

theorem websocket_scheme:
  "(scheme base = ''https'' \<longrightarrow> scheme (ws (ClientV3_constructor base)) = ''wss'')
   \<and> (is_special (scheme base) \<and> scheme base \<noteq> ''https''
        \<and> \<not> (scheme base = ''file'' \<and> hostname base = Some '''')
      \<longrightarrow> scheme (ws (ClientV3_constructor base)) = ''ws'')
   \<and> (\<not> is_special (scheme base) \<or> (scheme base = ''file'' \<and> hostname base = Some '''')
      \<longrightarrow> ws (ClientV3_constructor base) = base)
   \<and> (scheme (ws (ClientV3_constructor base)) = ''wss'' \<longleftrightarrow> scheme base = ''https'')"
  by (auto simp: ClientV3_constructor_def protocol_def set_protocol_ws set_protocol_wss
      is_special_def)

theorem websocket_scheme_witness:
  "scheme example_secure_base = ''https''
   \<and> scheme (ws (ClientV3_constructor example_secure_base)) = ''wss''
   \<and> is_special (scheme example_base) \<and> scheme example_base = ''http''
   \<and> scheme (ws (ClientV3_constructor example_base)) = ''ws''
   \<and> \<not> is_special (scheme example_odd_base)
   \<and> ws (ClientV3_constructor example_odd_base) = example_odd_base"
proof -
  have a: "scheme example_secure_base = ''https''"
    by (simp add: example_secure_base_def)
  have b: "is_special (scheme example_base) \<and> scheme example_base = ''http''
      \<and> hostname example_base = Some ''host''"
    by (simp add: example_base_def is_special_def)
  have c: "\<not> is_special (scheme example_odd_base)"
    by (simp add: example_odd_base_def is_special_def)
  from websocket_scheme [of example_secure_base] websocket_scheme [of example_base]
    websocket_scheme [of example_odd_base] a b c
  show ?thesis by (simp add: is_special_def)
qed

theorem websocket_scheme_counterexample:
  "protocol example_odd_base = ''foo:''
   \<and> protocol example_odd_base \<noteq> ''https:''
   \<and> protocol (ws (ClientV3_constructor example_odd_base)) = ''foo:''
   \<and> protocol (ws (ClientV3_constructor example_odd_base)) \<noteq> ''ws:''"
  by (simp add: ClientV3_constructor_def Let_def protocol_def set_protocol_ws is_special_def
      example_odd_base_def)

section \<open>The HTTP tunnel client: decoding the response\<close>

lemmas json_eval =
  JSON_parse_def lex_step_def lex_start_def json_space_def is_digit_def num_step_def num_final_def
  parse_step_def parse_value_def reduce_def obj_set_def array_index_def

lemma parse_object_headers_text:
  "JSON_parse object_headers_text = Inr (JObject [(''content-type'', JString ''text/plain'')])"
  by (simp add: object_headers_text_def json_eval)

lemma parse_array_headers_text:
  "JSON_parse array_headers_text =
     Inr (JArray [JArray [JString ''content-type'', JString ''text/plain'']])"
  by (simp add: array_headers_text_def json_eval)

lemma joinHeaders_created_response:
  "joinHeaders (r_headers (created_response x)) = Inr (r_headers (created_response x))"
  by (simp add: created_response_def joinHeaders_def keyed_def join_group_def chunk_key_def
      continuation_def is_digit_def)

lemma settled_request:
  "settled (request threshold digest fetch this remote m body hs sg) =
     (case fetch (fetch_url (request threshold digest fetch this remote m body hs sg))
             (fetch_options (request threshold digest fetch this remote m body hs sg)) of
        Inl e \<Rightarrow> Inl e
      | Inr response \<Rightarrow>
          (case readBareResponse response of
             Inl e \<Rightarrow> Inl e
           | Inr readResponse \<Rightarrow>
               Inr \<lparr>t_body = r_body response, t_headers = b_headers readResponse,
                    t_status = b_status readResponse, t_statusText = b_statusText readResponse\<rparr>))"
  by (simp add: request_def Let_def)

lemma readBareResponse_not_ok:
  "\<not> ok response \<Longrightarrow>
     readBareResponse response =
       (case Response_json response of
          Inl e \<Rightarrow> Inl e
        | Inr j \<Rightarrow> Inl (BareError (r_status response) j))"
  by (simp add: readBareResponse_def)

lemma readBareResponse_ok:
  assumes "ok response" and "joinHeaders (r_headers response) = Inr joined"
  shows "readBareResponse response =
     (case Headers_get joined ''x-bare-headers'' of
        None \<Rightarrow>
          Inr \<lparr>b_headers = None,
               b_status = map_option parseInt (Headers_get joined ''x-bare-status''),
               b_statusText = Headers_get joined ''x-bare-status-text''\<rparr>
      | Some x \<Rightarrow>
          (case JSON_parse x of
             Inl e \<Rightarrow> Inl e
           | Inr v \<Rightarrow>
               (case Object_entries v of
                  Inl e \<Rightarrow> Inl e
                | Inr es \<Rightarrow>
                    Inr \<lparr>b_headers = Some es,
                         b_status = map_option parseInt (Headers_get joined ''x-bare-status''),
                         b_statusText = Headers_get joined ''x-bare-status-text''\<rparr>)))"
  using assms
  by (simp add: readBareResponse_def Let_def split: option.splits sum.splits)

lemma parseInt_201: "parseInt ''201'' = Num 201"
  by (simp add: parseInt_def js_space_def hex_val_def is_digit_def digit_val_def)

lemma request_created_response:
  "settled (request example_threshold example_md5 (fetch_returning (created_response x))
        (ClientV3_constructor example_base) example_remote ''GET'' None [] None)
   = (case readBareResponse (created_response x) of
        Inl e \<Rightarrow> Inl e
      | Inr readResponse \<Rightarrow>
          Inr \<lparr>t_body = r_body (created_response x), t_headers = b_headers readResponse,
               t_status = b_status readResponse, t_statusText = b_statusText readResponse\<rparr>)"
  by (simp add: settled_request fetch_returning_def)

lemma created_response_get:
  "Headers_get (r_headers (created_response x)) ''x-bare-status'' = Some ''201''"
  "Headers_get (r_headers (created_response x)) ''x-bare-status-text'' = Some ''Created''"
  "Headers_get (r_headers (created_response x)) ''x-bare-headers'' = Some x"
  by (simp_all add: created_response_def Headers_get_def lower_def lower_char_def)

text \<open>
  C1, as amended. For a physical response with a success status whose joined headers
  carry \<^verbatim>\<open>x-bare-status\<close> "201", \<^verbatim>\<open>x-bare-status-text\<close> "Created" and as
  \<^verbatim>\<open>x-bare-headers\<close> the text of the JSON object with the one member content-type:
  text/plain, \<^verbatim>\<open>request\<close> returns status 201, status text "Created" and the headers
  [[content-type, text/plain]]; in general the headers are the members of the decoded
  JSON object in property order. Whenever one of the three headers is absent, the
  corresponding field of the result is left unset.
\<close>

theorem decoded_response:
  fixes threshold digest and fetch :: "string \<Rightarrow> RequestInit \<Rightarrow> js_error + Response"
    and this remote m body hs sg
  defines "R \<equiv> request threshold digest fetch this remote m body hs sg"
  assumes "fetch (fetch_url R) (fetch_options R) = Inr response" and "ok response"
    and "joinHeaders (r_headers response) = Inr joined"
  shows "(Headers_get joined ''x-bare-status'' = Some ''201''
          \<and> Headers_get joined ''x-bare-status-text'' = Some ''Created''
          \<and> Headers_get joined ''x-bare-headers'' = Some object_headers_text
          \<longrightarrow> settled R = Inr \<lparr>t_body = r_body response,
                               t_headers = Some [(''content-type'', JString ''text/plain'')],
                               t_status = Some (Num 201), t_statusText = Some ''Created''\<rparr>)
       \<and> (\<forall>x ps. Headers_get joined ''x-bare-headers'' = Some x \<and> JSON_parse x = Inr (JObject ps)
            \<longrightarrow> (\<exists>t. settled R = Inr t \<and> t_headers t = Some ps))
       \<and> (Headers_get joined ''x-bare-headers'' = None \<longrightarrow> (\<exists>t. settled R = Inr t))
       \<and> (\<forall>t. settled R = Inr t \<longrightarrow>
            (Headers_get joined ''x-bare-status'' = None \<longrightarrow> t_status t = None)
          \<and> (Headers_get joined ''x-bare-status-text'' = None \<longrightarrow> t_statusText t = None)
          \<and> (Headers_get joined ''x-bare-headers'' = None \<longrightarrow> t_headers t = None))"
proof -
  note rb = readBareResponse_ok [OF assms(3) assms(4)]
  have s: "settled R =
     (case readBareResponse response of
        Inl e \<Rightarrow> Inl e
      | Inr readResponse \<Rightarrow>
          Inr \<lparr>t_body = r_body response, t_headers = b_headers readResponse,
               t_status = b_status readResponse, t_statusText = b_statusText readResponse\<rparr>)"
    using assms(2) unfolding R_def by (simp add: settled_request)
  show ?thesis
    unfolding s rb
    by (auto simp: parse_object_headers_text Object_entries_def parseInt_201
        split: option.splits sum.splits)
qed

theorem decoded_response_witness:
  "ok (created_response object_headers_text)
   \<and> settled (request example_threshold example_md5
        (fetch_returning (created_response object_headers_text))
        (ClientV3_constructor example_base) example_remote ''GET'' None [] None)
     = Inr \<lparr>t_body = ''payload'', t_headers = Some [(''content-type'', JString ''text/plain'')],
            t_status = Some (Num 201), t_statusText = Some ''Created''\<rparr>
   \<and> ok bare_response
   \<and> settled (request example_threshold example_md5 (fetch_returning bare_response)
        (ClientV3_constructor example_base) example_remote ''GET'' None [] None)
     = Inr \<lparr>t_body = [], t_headers = None, t_status = None, t_statusText = None\<rparr>"
proof -
  have a: "ok (created_response object_headers_text)"
    by (simp add: ok_def created_response_def)
  have b: "r_body (created_response object_headers_text) = ''payload''"
    by (simp add: created_response_def)
  have c: "ok bare_response"
    by (simp add: ok_def bare_response_def)
  have d: "joinHeaders (r_headers bare_response) = Inr (r_headers bare_response)"
    by (simp add: bare_response_def joinHeaders_def keyed_def join_group_def chunk_key_def
        continuation_def is_digit_def)
  have e: "Headers_get (r_headers bare_response) ''x-bare-status'' = None"
    "Headers_get (r_headers bare_response) ''x-bare-status-text'' = None"
    "Headers_get (r_headers bare_response) ''x-bare-headers'' = None"
    by (simp_all add: bare_response_def Headers_get_def lower_def lower_char_def)
  have f: "r_body bare_response = []"
    by (simp add: bare_response_def)
  from decoded_response [where threshold = example_threshold and digest = example_md5
      and fetch = "fetch_returning (created_response object_headers_text)" and this = "ClientV3_constructor example_base"
      and remote = example_remote and m = "''GET''" and body = None and hs = "[]" and sg = None
      and response = "created_response object_headers_text", OF _ a joinHeaders_created_response]
  have 1: "settled (request example_threshold example_md5
        (fetch_returning (created_response object_headers_text))
        (ClientV3_constructor example_base) example_remote ''GET'' None [] None)
     = Inr \<lparr>t_body = ''payload'', t_headers = Some [(''content-type'', JString ''text/plain'')],
            t_status = Some (Num 201), t_statusText = Some ''Created''\<rparr>"
    by (simp add: fetch_returning_def created_response_get b)
  from decoded_response [where threshold = example_threshold and digest = example_md5
      and fetch = "fetch_returning bare_response" and this = "ClientV3_constructor example_base"
      and remote = example_remote and m = "''GET''" and body = None and hs = "[]" and sg = None
      and response = "bare_response", OF _ c d]
  have 2: "settled (request example_threshold example_md5 (fetch_returning bare_response)
        (ClientV3_constructor example_base) example_remote ''GET'' None [] None)
     = Inr \<lparr>t_body = [], t_headers = None, t_status = None, t_statusText = None\<rparr>"
    apply (simp add: fetch_returning_def e)
    apply (auto simp: settled_request fetch_returning_def f split: sum.splits)
    done
  show ?thesis using a c 1 2 by simp
qed

theorem decoded_response_counterexample:
  "ok (created_response array_headers_text)
   \<and> settled (request example_threshold example_md5
        (fetch_returning (created_response array_headers_text))
        (ClientV3_constructor example_base) example_remote ''GET'' None [] None)
     = Inr \<lparr>t_body = ''payload'',
            t_headers = Some [(''0'', JArray [JString ''content-type'', JString ''text/plain''])],
            t_status = Some (Num 201), t_statusText = Some ''Created''\<rparr>"
proof -
  have a: "ok (created_response array_headers_text)"
    by (simp add: ok_def created_response_def)
  have b: "r_body (created_response array_headers_text) = ''payload''"
    by (simp add: created_response_def)
  show ?thesis
    using a
    by (simp add: request_created_response
        readBareResponse_ok [OF a joinHeaders_created_response] created_response_get
        parse_array_headers_text Object_entries_def parseInt_201 show_nat_0 b)
qed

section \<open>The HTTP tunnel client: tunnel faults\<close>

text \<open>
  C3, as amended. For every request whose physical response has a non-success status
  and a body that parses as JSON, \<^verbatim>\<open>request\<close> fails with the tunnel fault that
  carries that status and the parsed body; when the body does not parse, it fails with
  the parse error instead. In both cases no logical response is produced: a failure and
  a decoded response exclude each other.
\<close>

theorem tunnel_fault:
  fixes threshold digest and fetch :: "string \<Rightarrow> RequestInit \<Rightarrow> js_error + Response"
    and this remote m body hs sg
  defines "R \<equiv> request threshold digest fetch this remote m body hs sg"
  assumes "fetch (fetch_url R) (fetch_options R) = Inr response" and "\<not> ok response"
  shows "(\<forall>j. Response_json response = Inr j \<longrightarrow> settled R = Inl (BareError (r_status response) j))
       \<and> (\<forall>e. Response_json response = Inl e \<longrightarrow> settled R = Inl e)
       \<and> (\<forall>t. settled R \<noteq> Inr t)"
  using assms
  by (auto simp: settled_request readBareResponse_not_ok split: sum.splits)

theorem tunnel_fault_witness:
  "\<not> ok not_found_json
   \<and> settled (request example_threshold example_md5 (fetch_returning not_found_json)
        (ClientV3_constructor example_base) example_remote ''GET'' None [] None)
     = Inl (BareError 404 (JObject [(''message'', JString ''not found'')]))"
proof -
  have a: "\<not> ok not_found_json"
    by (simp add: ok_def not_found_json_def)
  have b: "Response_json not_found_json = Inr (JObject [(''message'', JString ''not found'')])"
    by (simp add: Response_json_def not_found_json_def json_eval)
  have c: "r_status not_found_json = 404"
    by (simp add: not_found_json_def)
  from tunnel_fault [where threshold = example_threshold and digest = example_md5
      and fetch = "fetch_returning not_found_json" and this = "ClientV3_constructor example_base"
      and remote = example_remote and m = "''GET''" and body = None and hs = "[]" and sg = None
      and response = "not_found_json"]
    a b c
  show ?thesis by (simp add: fetch_returning_def)
qed

theorem tunnel_fault_counterexample:
  "\<not> ok not_found_html
   \<and> settled (request example_threshold example_md5 (fetch_returning not_found_html)
        (ClientV3_constructor example_base) example_remote ''GET'' None [] None)
     = Inl SyntaxError"
proof -
  have a: "\<not> ok not_found_html"
    by (simp add: ok_def not_found_html_def)
  have b: "Response_json not_found_html = Inl SyntaxError"
    by (simp add: Response_json_def not_found_html_def json_eval)
  show ?thesis
    using a b by (simp add: settled_request readBareResponse_not_ok fetch_returning_def)
qed

section \<open>The caller's header array\<close>

text \<open>
  C9. \<^verbatim>\<open>request\<close> and \<^verbatim>\<open>connect\<close> push on the caller's array: after
  \<^verbatim>\<open>request\<close> the array is the old one followed by the Host entry; after a
  \<^verbatim>\<open>connect\<close> that returns it is the old one followed by the Host, Upgrade and
  Connection entries; and \<^verbatim>\<open>connect\<close> returns whenever the socket is created.
\<close>

theorem caller_array_grows:
  "caller_headers (request threshold digest fetch this remote m body hs sg)
     = hs @ [(''Host'', host remote)]
   \<and> (\<forall>st. new_WebSocket (ws this) = Inr st \<longrightarrow>
        (\<exists>c. connect this u ps hs =
           Inr (hs @ [(''Host'', host u), (''Upgrade'', ''websocket''), (''Connection'', ''Upgrade'')], c)))
   \<and> (\<forall>hs' c. connect this u ps hs = Inr (hs', c) \<longrightarrow>
        hs' = hs @ [(''Host'', host u), (''Upgrade'', ''websocket''), (''Connection'', ''Upgrade'')])"
  by (auto simp: request_def connect_def Let_def split: sum.splits)

theorem caller_array_grows_witness:
  "caller_headers (request example_threshold example_md5 (fetch_returning bare_response)
       (ClientV3_constructor example_base) example_remote ''GET'' None [(''accept'', ''*/*'')] None)
     = [(''accept'', ''*/*''), (''Host'', ''example.com'')]
   \<and> new_WebSocket (ws (ClientV3_constructor example_base)) = Inr CONNECTING
   \<and> (\<exists>c. connect (ClientV3_constructor example_base) example_remote [''chat'']
             [(''accept'', ''*/*'')]
           = Inr ([(''accept'', ''*/*''), (''Host'', ''example.com''),
                   (''Upgrade'', ''websocket''), (''Connection'', ''Upgrade'')], c))"
proof -
  have a: "new_WebSocket (ws (ClientV3_constructor example_base)) = Inr CONNECTING"
    by (simp add: new_WebSocket_def ClientV3_constructor_def Let_def protocol_def
        set_protocol_ws is_special_def example_base_def)
  have b: "host example_remote = ''example.com''"
    by (simp add: host_def example_remote_def)
  from caller_array_grows [of example_threshold example_md5 "fetch_returning bare_response"
      "ClientV3_constructor example_base" example_remote "''GET''" None "[(''accept'', ''*/*'')]"
      None example_remote "[''chat'']"] a b
  show ?thesis by simp
qed

section \<open>The WebSocket tunnel client: facts about logs\<close>

lemma onopen_calls_append: "onopen_calls (a @ b) = onopen_calls a @ onopen_calls b"
  by (induction a rule: onopen_calls.induct) simp_all

lemma onmessage_calls_append: "onmessage_calls (a @ b) = onmessage_calls a @ onmessage_calls b"
  by (induction a rule: onmessage_calls.induct) simp_all

lemma raw_sends_append: "raw_sends (a @ b) = raw_sends a @ raw_sends b"
  by (induction a rule: raw_sends.induct) simp_all

lemma wire_append: "wire (a @ b) = wire a @ wire b"
  by (induction a rule: wire.induct) simp_all

lemma uncaught_append: "uncaught (a @ b) = uncaught a @ uncaught b"
  by (induction a rule: uncaught.induct) simp_all

lemma messages_append: "messages (a @ b) = messages a @ messages b"
  by (induction a rule: messages.induct) simp_all

lemma closes_append: "closes (a @ b) = closes a @ closes b"
  by (induction a rule: closes.induct) simp_all

lemma onopen_calls_replicate_Onmessage: "onopen_calls (replicate n (Onmessage d)) = []"
  by (induction n) simp_all

lemma onopen_calls_replicate_Onclose: "onopen_calls (replicate n (Onclose k r)) = []"
  by (induction n) simp_all

lemma onmessage_calls_replicate_Onmessage:
  "onmessage_calls (replicate n (Onmessage d)) = replicate n d"
  by (induction n) simp_all

lemma onmessage_calls_replicate_Onclose: "onmessage_calls (replicate n (Onclose k r)) = []"
  by (induction n) simp_all

lemma raw_sends_replicate_Onmessage: "raw_sends (replicate n (Onmessage d)) = []"
  by (induction n) simp_all

lemma raw_sends_replicate_Onclose: "raw_sends (replicate n (Onclose k r)) = []"
  by (induction n) simp_all

lemma wire_replicate_Onmessage: "wire (replicate n (Onmessage d)) = []"
  by (induction n) simp_all

lemma wire_replicate_Onclose: "wire (replicate n (Onclose k r)) = []"
  by (induction n) simp_all

lemma uncaught_replicate_Onmessage: "uncaught (replicate n (Onmessage d)) = []"
  by (induction n) simp_all

lemma uncaught_replicate_Onclose: "uncaught (replicate n (Onclose k r)) = []"
  by (induction n) simp_all

lemmas log_simps =
  onopen_calls_append onmessage_calls_append raw_sends_append wire_append uncaught_append
  onopen_calls_replicate_Onmessage onopen_calls_replicate_Onclose
  onmessage_calls_replicate_Onmessage onmessage_calls_replicate_Onclose
  raw_sends_replicate_Onmessage raw_sends_replicate_Onclose
  wire_replicate_Onmessage wire_replicate_Onclose
  uncaught_replicate_Onmessage uncaught_replicate_Onclose

lemma trace_Nil: "trace c [] = []"
  by (simp add: trace_def)

lemma trace_Cons: "trace c (ev # evs) = snd (dispatch c ev) @ trace (fst (dispatch c ev)) evs"
  by (simp add: trace_def split: prod.splits)

lemma run_append:
  "run c (a @ b) = (fst (run (fst (run c a)) b), snd (run c a) @ snd (run (fst (run c a)) b))"
  by (induction a arbitrary: c) (simp_all split: prod.splits)

lemma trace_append: "trace c (a @ b) = trace c a @ trace (fst (run c a)) b"
  by (simp add: trace_def run_append)

lemma run_Cons_fst: "fst (run c (ev # evs)) = fst (run (fst (dispatch c ev)) evs)"
  by (simp split: prod.splits)

text \<open>What one dispatch does to the listeners and to the log.\<close>

lemmas dispatch_defs =
  dispatch_def openListener_run_def messageListener_run_def closeListener_run_def
  socket_send_def cleanup_def Let_def

lemma dispatch_closure:
  "url (fst (dispatch c ev)) = url c"
  "protocols (fst (dispatch c ev)) = protocols c"
  "requestHeaders (fst (dispatch c ev)) = requestHeaders c"
  by (cases ev; simp add: dispatch_defs split: payload.splits sum.splits)+

lemma connect_message_dispatch: "connect_message (fst (dispatch c ev)) = connect_message c"
  by (simp add: connect_message_def dispatch_closure)

lemma messageListener_dispatch:
  "messageListener (fst (dispatch c ev)) \<Longrightarrow> messageListener c"
  by (cases ev; simp add: dispatch_defs split: payload.splits sum.splits if_splits)

lemma openListener_dispatch:
  "openListener (fst (dispatch c ev)) = (openListener c \<and> ev \<noteq> SocketOpen)"
  by (cases ev; simp add: dispatch_defs split: payload.splits sum.splits)

lemma raw_sends_dispatch:
  "raw_sends (snd (dispatch c ev)) =
     (if ev = SocketOpen \<and> openListener c then [Text (JSON_stringify (connect_message c))] else [])"
  by (cases ev; simp add: dispatch_defs connect_message_def log_simps
      split: payload.splits sum.splits readyState.splits)

lemma readyState_dispatch:
  "readyState c \<noteq> OPEN \<Longrightarrow> ev \<noteq> SocketOpen \<Longrightarrow> readyState (fst (dispatch c ev)) \<noteq> OPEN"
  by (cases ev; simp add: dispatch_defs split: payload.splits sum.splits)

lemma wire_dispatch_other:
  "readyState c \<noteq> OPEN \<Longrightarrow> ev \<noteq> SocketOpen \<Longrightarrow> wire (snd (dispatch c ev)) = []"
  by (cases ev; cases "readyState c";
      simp add: dispatch_defs log_simps split: payload.splits sum.splits)

lemma wire_dispatch_open:
  "openListener c \<Longrightarrow>
     wire (snd (dispatch c SocketOpen)) = [Text (JSON_stringify (connect_message c))]"
  by (simp add: dispatch_defs connect_message_def)

lemma onopen_dispatch_detached:
  "\<not> messageListener c \<Longrightarrow> onopen_calls (snd (dispatch c ev)) = []"
  by (cases ev; simp add: dispatch_defs log_simps split: payload.splits sum.splits readyState.splits)

lemma uncaught_dispatch_detached:
  "\<not> messageListener c \<Longrightarrow> uncaught (snd (dispatch c ev)) = []"
  by (cases ev; simp add: dispatch_defs log_simps split: payload.splits sum.splits readyState.splits)

lemma relayMessage_dispatch_detached:
  "\<not> messageListener c \<Longrightarrow> relayMessage (fst (dispatch c ev)) = relayMessage c"
  by (cases ev; simp add: dispatch_defs split: payload.splits sum.splits)

lemma onmessage_dispatch_detached:
  "\<not> messageListener c \<Longrightarrow>
     onmessage_calls (snd (dispatch c ev)) = concat (map (replicate (relayMessage c)) (messages [ev]))"
  by (cases ev; simp add: dispatch_defs log_simps split: payload.splits sum.splits readyState.splits)

lemma detached_stays: "\<not> messageListener c \<Longrightarrow> \<not> messageListener (fst (dispatch c ev))"
  using messageListener_dispatch by blast

lemma onopen_detached: "\<not> messageListener c \<Longrightarrow> onopen_calls (trace c evs) = []"
  by (induction evs arbitrary: c)
     (simp_all add: trace_Nil trace_Cons log_simps onopen_dispatch_detached detached_stays)

lemma uncaught_detached: "\<not> messageListener c \<Longrightarrow> uncaught (trace c evs) = []"
  by (induction evs arbitrary: c)
     (simp_all add: trace_Nil trace_Cons log_simps uncaught_dispatch_detached detached_stays)

lemma messages_Cons: "messages (ev # evs) = messages [ev] @ messages evs"
  by (cases ev) simp_all

lemma onmessage_detached:
  "\<not> messageListener c \<Longrightarrow>
     onmessage_calls (trace c evs) = concat (map (replicate (relayMessage c)) (messages evs))"
proof (induction evs arbitrary: c)
  case Nil
  then show ?case by (simp add: trace_Nil)
next
  case (Cons ev evs)
  have "onmessage_calls (trace c (ev # evs)) =
      concat (map (replicate (relayMessage c)) (messages [ev]))
      @ concat (map (replicate (relayMessage c)) (messages evs))"
    using Cons.prems Cons.IH [of "fst (dispatch c ev)"]
    by (simp add: trace_Cons log_simps onmessage_dispatch_detached detached_stays
        relayMessage_dispatch_detached)
  then show ?case
    by (subst messages_Cons) simp
qed

text \<open>
  One dispatch while the handshake listener is attached: either the event is a message,
  and then the listener detaches itself and calls \<^verbatim>\<open>onopen\<close> at most once; or it
  is not, and then no callback for a message or an open runs.
\<close>

lemma onopen_dispatch_le: "length (onopen_calls (snd (dispatch c ev))) \<le> 1"
  by (cases ev; simp add: dispatch_defs log_simps split: payload.splits sum.splits readyState.splits)

lemma onopen_dispatch_detaches:
  "onopen_calls (snd (dispatch c ev)) \<noteq> [] \<Longrightarrow> \<not> messageListener (fst (dispatch c ev))"
  by (cases ev; auto simp: dispatch_defs log_simps
      split: payload.splits sum.splits readyState.splits if_splits)

lemma onopen_at_most_once: "length (onopen_calls (trace c evs)) \<le> 1"
proof (induction evs arbitrary: c)
  case Nil
  then show ?case by (simp add: trace_Nil)
next
  case (Cons ev evs)
  show ?case
  proof (cases "onopen_calls (snd (dispatch c ev)) = []")
    case True
    then show ?thesis
      using Cons.IH [of "fst (dispatch c ev)"] by (simp add: trace_Cons log_simps)
  next
    case False
    then have "onopen_calls (trace (fst (dispatch c ev)) evs) = []"
      by (simp add: onopen_dispatch_detaches onopen_detached)
    then show ?thesis
      using onopen_dispatch_le [of c ev] by (simp add: trace_Cons log_simps)
  qed
qed

lemma opened_first_append:
  "opened_first (a @ b) =
     (if onopen_calls a \<noteq> [] then opened_first a
      else onmessage_calls a = [] \<and> opened_first b)"
  by (induction a rule: opened_first.induct) simp_all

lemma opened_first_split:
  "opened_first fx \<Longrightarrow> fx = fx1 @ Onmessage d # fx2 \<Longrightarrow> onopen_calls fx1 \<noteq> []"
  by (induction fx arbitrary: fx1 rule: opened_first.induct)
     (auto simp: Cons_eq_append_conv)

lemma opened_first_replicate_Onclose: "opened_first (replicate n (Onclose k r))"
  by (induction n) simp_all

lemma dispatch_no_relay:
  "relayMessage c = 0 \<Longrightarrow>
     onmessage_calls (snd (dispatch c ev)) = []
     \<and> opened_first (snd (dispatch c ev))
     \<and> (onopen_calls (snd (dispatch c ev)) = [] \<longrightarrow> relayMessage (fst (dispatch c ev)) = 0)"
  by (cases ev; simp add: dispatch_defs log_simps opened_first_replicate_Onclose
      split: payload.splits sum.splits readyState.splits)

lemma opened_first_trace: "relayMessage c = 0 \<Longrightarrow> opened_first (trace c evs)"
proof (induction evs arbitrary: c)
  case Nil
  then show ?case by (simp add: trace_Nil)
next
  case (Cons ev evs)
  from dispatch_no_relay [OF Cons.prems, of ev] Cons.IH [of "fst (dispatch c ev)"]
  show ?case
    by (simp add: trace_Cons opened_first_append)
qed

text \<open>The open listener sends once, at the first open event, and nothing is on the wire before.\<close>

lemma raw_sends_trace:
  "raw_sends (trace c evs) =
     (if openListener c \<and> SocketOpen \<in> set evs
      then [Text (JSON_stringify (connect_message c))] else [])"
proof (induction evs arbitrary: c)
  case Nil
  then show ?case by (simp add: trace_Nil)
next
  case (Cons ev evs)
  show ?case
    using Cons.IH [of "fst (dispatch c ev)"]
    by (auto simp: trace_Cons log_simps raw_sends_dispatch openListener_dispatch
        connect_message_dispatch)
qed

lemma wire_before_open:
  "readyState c \<noteq> OPEN \<Longrightarrow> SocketOpen \<notin> set evs \<Longrightarrow> wire (trace c evs) = []"
proof (induction evs arbitrary: c)
  case Nil
  then show ?case by (simp add: trace_Nil)
next
  case (Cons ev evs)
  from Cons.prems have ne: "ev \<noteq> SocketOpen" and rest: "SocketOpen \<notin> set evs"
    by auto
  from Cons.IH [OF readyState_dispatch [OF Cons.prems(1) ne] rest]
    wire_dispatch_other [OF Cons.prems(1) ne]
  show ?case
    by (simp add: trace_Cons log_simps)
qed

lemma wire_starts_with_handshake:
  "readyState c \<noteq> OPEN \<Longrightarrow> openListener c \<Longrightarrow> wire (trace c evs) \<noteq> [] \<Longrightarrow>
     hd (wire (trace c evs)) = Text (JSON_stringify (connect_message c))"
proof (induction evs arbitrary: c)
  case Nil
  then show ?case by (simp add: trace_Nil)
next
  case (Cons ev evs)
  show ?case
  proof (cases "ev = SocketOpen")
    case True
    then show ?thesis
      using Cons.prems by (simp add: trace_Cons log_simps wire_dispatch_open)
  next
    case False
    then show ?thesis
      using Cons.prems Cons.IH [of "fst (dispatch c ev)"]
      by (simp add: trace_Cons log_simps wire_dispatch_other readyState_dispatch
          openListener_dispatch connect_message_dispatch)
  qed
qed

text \<open>The handshake phase: up to the first message event.\<close>

lemma dispatch_pending:
  assumes "messageListener c" and "relayMessage c = 0"
    and "messages [ev] = []" and "closes [ev] = []"
  shows "messageListener (fst (dispatch c ev)) \<and> relayMessage (fst (dispatch c ev)) = 0
       \<and> onopen_calls (snd (dispatch c ev)) = [] \<and> onmessage_calls (snd (dispatch c ev)) = []
       \<and> uncaught (snd (dispatch c ev)) = []"
  using assms
  by (cases ev; simp add: dispatch_defs log_simps split: payload.splits sum.splits readyState.splits)

lemma closes_Cons: "closes (ev # evs) = closes [ev] @ closes evs"
  by (cases ev) simp_all

lemma handshake_pending:
  assumes "messageListener c" and "relayMessage c = 0"
    and "messages pre = []" and "closes pre = []"
  shows "messageListener (fst (run c pre)) \<and> relayMessage (fst (run c pre)) = 0
       \<and> onopen_calls (trace c pre) = [] \<and> onmessage_calls (trace c pre) = []
       \<and> uncaught (trace c pre) = []"
  using assms
proof (induction pre arbitrary: c)
  case Nil
  then show ?case by (simp add: trace_Nil)
next
  case (Cons ev pre)
  from Cons.prems(3) have m: "messages [ev] = []" "messages pre = []"
    by (subst (asm) messages_Cons, simp)+
  from Cons.prems(4) have k: "closes [ev] = []" "closes pre = []"
    by (subst (asm) closes_Cons, simp)+
  note d = dispatch_pending [OF Cons.prems(1) Cons.prems(2) m(1) k(1)]
  from d Cons.IH [of "fst (dispatch c ev)", OF _ _ m(2) k(2)]
  show ?case
    by (simp add: trace_Cons run_Cons_fst log_simps del: run.simps)
qed

lemma concat_replicate_once: "concat (map (replicate (Suc 0)) xs) = xs"
  by (induction xs) simp_all

lemma dispatch_open_frame:
  assumes "messageListener c" and "relayMessage c = 0"
    and "JSON_parse t = Inr v"
    and "get_property v ''type'' = Inr (Some (JString ''open''))"
    and "get_property v ''protocol'' = Inr pr"
  shows "snd (dispatch c (SocketMessage (Text t))) = [Onopen pr []]
       \<and> \<not> messageListener (fst (dispatch c (SocketMessage (Text t))))
       \<and> relayMessage (fst (dispatch c (SocketMessage (Text t)))) = 1"
  using assms by (simp add: dispatch_defs)

lemma dispatch_bad_frame:
  assumes "messageListener c" and "relayMessage c = 0"
    and "\<forall>t v. d = Text t \<longrightarrow> JSON_parse t = Inr v \<longrightarrow>
           get_property v ''type'' \<noteq> Inr (Some (JString ''open''))"
  shows "(\<exists>e. snd (dispatch c (SocketMessage d)) = [Uncaught e])
       \<and> \<not> messageListener (fst (dispatch c (SocketMessage d)))
       \<and> relayMessage (fst (dispatch c (SocketMessage d))) = 0"
  using assms
  by (cases d; auto simp: dispatch_defs split: sum.splits)

lemma connect_initial:
  assumes "connect this u ps hs = Inr (hs', c)"
  shows "messageListener c \<and> closeListener c \<and> openListener c \<and> relayMessage c = 0
       \<and> relayClose c = 0 \<and> readyState c = CONNECTING
       \<and> url c = u \<and> protocols c = ps \<and> requestHeaders c = hs'"
  using assms
  by (auto simp: connect_def new_WebSocket_def Let_def split: sum.splits if_splits)

text \<open>
  C5. When the first message event of a connection carries a text frame that parses as
  JSON with \<^verbatim>\<open>type\<close> "open" and \<^verbatim>\<open>protocol\<close> \<open>p\<close> (no close event having come
  before it, as the host dispatches no message on a closed socket), \<^verbatim>\<open>onopen\<close> is
  called exactly once in the whole run, with \<open>p\<close> and the empty string; every message
  event after that frame is handed to \<^verbatim>\<open>onmessage\<close> with its payload as it came,
  once and in order, whatever its content; and no listener raises.
\<close>

theorem open_frame_accepted:
  assumes "connect this u ps hs = Inr (hs', c)"
    and "messages pre = []" and "closes pre = []"
    and "JSON_parse t = Inr v"
    and "get_property v ''type'' = Inr (Some (JString ''open''))"
    and "get_property v ''protocol'' = Inr (Some (JString p))"
  shows "onopen_calls (trace c (pre @ SocketMessage (Text t) # post)) = [(Some (JString p), [])]
       \<and> onmessage_calls (trace c (pre @ SocketMessage (Text t) # post)) = messages post
       \<and> uncaught (trace c (pre @ SocketMessage (Text t) # post)) = []"
proof -
  from connect_initial [OF assms(1)] have i: "messageListener c" "relayMessage c = 0"
    by simp_all
  note h = handshake_pending [OF i assms(2) assms(3)]
  from h have j: "messageListener (fst (run c pre))" "relayMessage (fst (run c pre)) = 0"
    by simp_all
  note o = dispatch_open_frame [OF j assms(4) assms(5) assms(6)]
  from o have k: "\<not> messageListener (fst (dispatch (fst (run c pre)) (SocketMessage (Text t))))"
    by simp
  show ?thesis
    using h o onopen_detached [OF k, of post] onmessage_detached [OF k, of post]
      uncaught_detached [OF k, of post]
    by (simp add: trace_append trace_Cons log_simps concat_replicate_once)
qed

text \<open>
  C6. When the first message event of a connection (no close event having come before
  it) carries a payload that is not text, or a text that does not parse as JSON with
  \<^verbatim>\<open>type\<close> "open", then neither \<^verbatim>\<open>onopen\<close> nor \<^verbatim>\<open>onmessage\<close> is called in
  the whole run, whatever follows, and the handshake listener throws: exactly one
  exception escapes it.
\<close>

theorem handshake_violation:
  assumes "connect this u ps hs = Inr (hs', c)"
    and "messages pre = []" and "closes pre = []"
    and "\<forall>t v. d = Text t \<longrightarrow> JSON_parse t = Inr v \<longrightarrow>
           get_property v ''type'' \<noteq> Inr (Some (JString ''open''))"
  shows "onopen_calls (trace c (pre @ SocketMessage d # post)) = []
       \<and> onmessage_calls (trace c (pre @ SocketMessage d # post)) = []
       \<and> (\<exists>e. uncaught (trace c (pre @ SocketMessage d # post)) = [e])"
proof -
  from connect_initial [OF assms(1)] have i: "messageListener c" "relayMessage c = 0"
    by simp_all
  note h = handshake_pending [OF i assms(2) assms(3)]
  from h have j: "messageListener (fst (run c pre))" "relayMessage (fst (run c pre)) = 0"
    by simp_all
  note b = dispatch_bad_frame [OF j assms(4)]
  from b have k: "\<not> messageListener (fst (dispatch (fst (run c pre)) (SocketMessage d)))"
    and r: "relayMessage (fst (dispatch (fst (run c pre)) (SocketMessage d))) = 0"
    by simp_all
  from b obtain e where e: "snd (dispatch (fst (run c pre)) (SocketMessage d)) = [Uncaught e]"
    by blast
  show ?thesis
    using h e r onopen_detached [OF k, of post] onmessage_detached [OF k, of post]
      uncaught_detached [OF k, of post]
    by (simp add: trace_append trace_Cons log_simps)
qed

text \<open>
  C7. In every run of a connection: the open listener sends the Connect control message
  (type "connect", the remote URL, the protocols, the headers object, and an empty
  \<^verbatim>\<open>forwardHeaders\<close>) exactly when the socket reports open for the first time, hence
  at most once; nothing at all is on the wire in a run without an open event, and the
  first payload on the wire is the Connect message; \<^verbatim>\<open>onopen\<close> is called at most
  once, and every \<^verbatim>\<open>onmessage\<close> call comes after an \<^verbatim>\<open>onopen\<close> call.
\<close>

theorem handshake_order:
  assumes "connect this u ps hs = Inr (hs', c)"
  shows "connect_message c =
           JObject [(''type'', JString ''connect''), (''remote'', JString (href u)),
                    (''protocols'', JArray (map JString ps)), (''headers'', headers_object hs'),
                    (''forwardHeaders'', JArray [])]
       \<and> raw_sends (trace c evs) =
           (if SocketOpen \<in> set evs then [Text (JSON_stringify (connect_message c))] else [])
       \<and> (\<forall>pre post. evs = pre @ post \<and> SocketOpen \<notin> set pre \<longrightarrow>
             wire (trace c pre) = [] \<and> (\<exists>fx. trace c evs = trace c pre @ fx))
       \<and> (wire (trace c evs) \<noteq> [] \<longrightarrow>
             hd (wire (trace c evs)) = Text (JSON_stringify (connect_message c)))
       \<and> length (onopen_calls (trace c evs)) \<le> 1
       \<and> (\<forall>fx1 d fx2. trace c evs = fx1 @ Onmessage d # fx2 \<longrightarrow> onopen_calls fx1 \<noteq> [])"
proof -
  note i = connect_initial [OF assms]
  from i have st: "readyState c \<noteq> OPEN" and ol: "openListener c" and rm: "relayMessage c = 0"
    by simp_all
  have 1: "connect_message c =
           JObject [(''type'', JString ''connect''), (''remote'', JString (href u)),
                    (''protocols'', JArray (map JString ps)), (''headers'', headers_object hs'),
                    (''forwardHeaders'', JArray [])]"
    using i by (simp add: connect_message_def)
  have 2: "raw_sends (trace c evs) =
           (if SocketOpen \<in> set evs then [Text (JSON_stringify (connect_message c))] else [])"
    using ol by (simp add: raw_sends_trace)
  have 3: "\<forall>pre post. evs = pre @ post \<and> SocketOpen \<notin> set pre \<longrightarrow>
             wire (trace c pre) = [] \<and> (\<exists>fx. trace c evs = trace c pre @ fx)"
    using st by (auto simp: wire_before_open trace_append)
  have 4: "wire (trace c evs) \<noteq> [] \<longrightarrow>
             hd (wire (trace c evs)) = Text (JSON_stringify (connect_message c))"
    using wire_starts_with_handshake [OF st ol] by blast
  have 5: "\<forall>fx1 d fx2. trace c evs = fx1 @ Onmessage d # fx2 \<longrightarrow> onopen_calls fx1 \<noteq> []"
    using opened_first_split [OF opened_first_trace [OF rm]] by blast
  show ?thesis
    using 1 2 3 4 5 onopen_at_most_once [of c evs] by blast
qed

section \<open>The WebSocket tunnel client on the example connection\<close>

lemma new_WebSocket_example: "new_WebSocket (ws (ClientV3_constructor example_base)) = Inr CONNECTING"
  by (simp add: new_WebSocket_def ClientV3_constructor_def Let_def protocol_def
      set_protocol_ws is_special_def example_base_def)

lemma host_example_remote: "host example_remote = ''example.com''"
  by (simp add: host_def example_remote_def)

lemma connect_example:
  "connect (ClientV3_constructor example_base) example_remote [''chat''] [(''accept'', ''*/*'')]
     = Inr (requestHeaders example_connection, example_connection)"
  by (simp add: connect_def Let_def new_WebSocket_example host_example_remote
      example_connection_def)

lemma parse_open_frame_text:
  "JSON_parse open_frame_text =
     Inr (JObject [(''type'', JString ''open''), (''protocol'', JString ''chat''),
                   (''setCookies'', JArray [])])"
  by (simp add: open_frame_text_def json_eval)

lemma headers_object_example:
  "headers_object (requestHeaders example_connection) =
     JObject [(''accept'', JString ''*/*''), (''Host'', JString ''example.com''),
              (''Upgrade'', JString ''websocket''), (''Connection'', JString ''Upgrade'')]"
  by (simp add: headers_object_def Object_fromEntries_def obj_set_def array_index_def
      is_digit_def example_connection_def)

lemma href_example_remote: "href example_remote = ''https://example.com/a''"
  by (simp add: href_def example_remote_def)

lemma stringify_connect_message_example:
  "JSON_stringify (connect_message example_connection) = connect_frame_text"
proof -
  have u: "url example_connection = example_remote" "protocols example_connection = [''chat'']"
    by (simp_all add: example_connection_def)
  show ?thesis
    by (simp add: connect_message_def headers_object_example href_example_remote u
        quote_def quote_char_def connect_frame_text_def)
qed

lemma connect_message_opened:
  "connect_message (example_connection\<lparr>readyState := OPEN, openListener := False\<rparr>)
     = connect_message example_connection"
  by (simp add: connect_message_def)

lemma trace_example:
  "trace example_connection example_events =
     [Raised InvalidStateError, RawSend (Text connect_frame_text),
      Onopen (Some (JString ''chat'')) [], ReturnedSend (Text ''hello''),
      Onmessage (Text open_frame_text), Onmessage (Blob [1, 2]), Onclose 1000 ''bye'']"
proof -
  have s: "readyState example_connection = CONNECTING" "openListener example_connection"
    "messageListener example_connection" "closeListener example_connection"
    "relayMessage example_connection = 0" "relayClose example_connection = 0"
    by (simp_all add: example_connection_def)
  show ?thesis
    by (simp add: example_events_def trace_Cons trace_Nil dispatch_defs s parse_open_frame_text
        get_property_def connect_message_opened stringify_connect_message_example)
qed

theorem open_frame_accepted_witness:
  "connect (ClientV3_constructor example_base) example_remote [''chat''] [(''accept'', ''*/*'')]
     = Inr (requestHeaders example_connection, example_connection)
   \<and> messages [SocketOpen] = [] \<and> closes [SocketOpen] = []
   \<and> JSON_parse open_frame_text =
       Inr (JObject [(''type'', JString ''open''), (''protocol'', JString ''chat''),
                     (''setCookies'', JArray [])])
   \<and> onopen_calls (trace example_connection
         [SocketOpen, SocketMessage (Text open_frame_text), SocketMessage (Text open_frame_text),
          SocketMessage (Blob [1, 2]), SocketClose 1000 ''bye''])
       = [(Some (JString ''chat''), [])]
   \<and> onmessage_calls (trace example_connection
         [SocketOpen, SocketMessage (Text open_frame_text), SocketMessage (Text open_frame_text),
          SocketMessage (Blob [1, 2]), SocketClose 1000 ''bye''])
       = [Text open_frame_text, Blob [1, 2]]"
proof -
  have m: "messages [SocketOpen] = []" and k: "closes [SocketOpen] = []"
    by simp_all
  from open_frame_accepted [OF connect_example m k parse_open_frame_text, of "''chat''"
      "[SocketMessage (Text open_frame_text), SocketMessage (Blob [1, 2]), SocketClose 1000 ''bye'']"]
    connect_example parse_open_frame_text
  show ?thesis
    by (simp add: get_property_def)
qed

theorem handshake_violation_witness:
  "connect (ClientV3_constructor example_base) example_remote [''chat''] [(''accept'', ''*/*'')]
     = Inr (requestHeaders example_connection, example_connection)
   \<and> messages [SocketOpen] = [] \<and> closes [SocketOpen] = []
   \<and> onopen_calls (trace example_connection
         [SocketOpen, SocketMessage (Blob [1, 2]), SocketMessage (Text open_frame_text),
          SocketMessage (Text ''data'')]) = []
   \<and> onmessage_calls (trace example_connection
         [SocketOpen, SocketMessage (Blob [1, 2]), SocketMessage (Text open_frame_text),
          SocketMessage (Text ''data'')]) = []
   \<and> (\<exists>e. uncaught (trace example_connection
         [SocketOpen, SocketMessage (Blob [1, 2]), SocketMessage (Text open_frame_text),
          SocketMessage (Text ''data'')]) = [e])
   \<and> JSON_parse ''null'' = Inr JNull
   \<and> onopen_calls (trace example_connection
         [SocketOpen, SocketMessage (Text ''null''), SocketMessage (Text open_frame_text)]) = []
   \<and> onmessage_calls (trace example_connection
         [SocketOpen, SocketMessage (Text ''null''), SocketMessage (Text open_frame_text)]) = []
   \<and> (\<exists>e. uncaught (trace example_connection
         [SocketOpen, SocketMessage (Text ''null''), SocketMessage (Text open_frame_text)]) = [e])"
proof -
  have m: "messages [SocketOpen] = []" and k: "closes [SocketOpen] = []"
    by simp_all
  have n: "JSON_parse ''null'' = Inr JNull"
    by (simp add: json_eval)
  have b1: "\<forall>t v. Blob [1, 2] = Text t \<longrightarrow> JSON_parse t = Inr v \<longrightarrow>
      get_property v ''type'' \<noteq> Inr (Some (JString ''open''))"
    by simp
  have b2: "\<forall>t v. Text ''null'' = Text t \<longrightarrow> JSON_parse t = Inr v \<longrightarrow>
      get_property v ''type'' \<noteq> Inr (Some (JString ''open''))"
    using n by (auto simp: get_property_def)
  from handshake_violation [OF connect_example m k b1,
      of "[SocketMessage (Text open_frame_text), SocketMessage (Text ''data'')]"]
    handshake_violation [OF connect_example m k b2, of "[SocketMessage (Text open_frame_text)]"]
    connect_example n
  show ?thesis
    by simp
qed

theorem handshake_order_witness:
  "connect (ClientV3_constructor example_base) example_remote [''chat''] [(''accept'', ''*/*'')]
     = Inr (requestHeaders example_connection, example_connection)
   \<and> JSON_stringify (connect_message example_connection) = connect_frame_text
   \<and> trace example_connection example_events =
       [Raised InvalidStateError, RawSend (Text connect_frame_text),
        Onopen (Some (JString ''chat'')) [], ReturnedSend (Text ''hello''),
        Onmessage (Text open_frame_text), Onmessage (Blob [1, 2]), Onclose 1000 ''bye'']
   \<and> raw_sends (trace example_connection example_events) = [Text connect_frame_text]
   \<and> wire (trace example_connection [CallSend (Text ''early'')]) = []
   \<and> hd (wire (trace example_connection example_events)) = Text connect_frame_text
   \<and> length (onopen_calls (trace example_connection example_events)) \<le> 1
   \<and> onopen_calls [Raised InvalidStateError, RawSend (Text connect_frame_text),
        Onopen (Some (JString ''chat'')) [], ReturnedSend (Text ''hello'')] \<noteq> []"
proof -
  note h = handshake_order [OF connect_example, of example_events]
  have o: "SocketOpen \<in> set example_events"
    by (simp add: example_events_def)
  have p: "example_events = [CallSend (Text ''early'')] @ tl example_events
      \<and> SocketOpen \<notin> set [CallSend (Text ''early'')]"
    by (simp add: example_events_def)
  have q: "trace example_connection example_events =
      [Raised InvalidStateError, RawSend (Text connect_frame_text),
       Onopen (Some (JString ''chat'')) [], ReturnedSend (Text ''hello'')]
      @ Onmessage (Text open_frame_text) # [Onmessage (Blob [1, 2]), Onclose 1000 ''bye'']"
    by (simp add: trace_example)
  have w: "wire (trace example_connection example_events) \<noteq> []"
    by (simp add: trace_example)
  from h have 1: "raw_sends (trace example_connection example_events) = [Text connect_frame_text]"
    using o by (simp add: stringify_connect_message_example)
  from h p have 2: "wire (trace example_connection [CallSend (Text ''early'')]) = []"
    by blast
  from h w have 3: "hd (wire (trace example_connection example_events)) = Text connect_frame_text"
    by (simp add: stringify_connect_message_example)
  from h have 4: "length (onopen_calls (trace example_connection example_events)) \<le> 1"
    by blast
  from h q have 5: "onopen_calls [Raised InvalidStateError, RawSend (Text connect_frame_text),
        Onopen (Some (JString ''chat'')) [], ReturnedSend (Text ''hello'')] \<noteq> []"
    by blast
  show ?thesis
    using connect_example stringify_connect_message_example trace_example 1 2 3 4 5
    by blast
qed

section \<open>The header codec: joining a split\<close>

text \<open>Decimal numerals read back.\<close>

lemma digit_char_is_digit: "d < 10 \<Longrightarrow> is_digit (digit_char d)"
proof -
  assume "d < 10"
  then have "d \<in> {0, 1, 2, 3, 4, 5, 6, 7, 8, 9}" by auto
  then show ?thesis
    by (auto simp: is_digit_def digit_char_def)
qed

lemma digit_val_digit_char: "d < 10 \<Longrightarrow> digit_val (digit_char d) = d"
proof -
  assume "d < 10"
  then have "d \<in> {0, 1, 2, 3, 4, 5, 6, 7, 8, 9}" by auto
  then show ?thesis
    by (auto simp: digit_val_def digit_char_def)
qed

lemma show_nat_digits: "list_all is_digit (show_nat n)"
proof (induction n rule: show_nat.induct)
  case (1 n)
  show ?case
  proof (cases "n < 10")
    case True
    then show ?thesis
      by (subst show_nat.simps) (simp add: digit_char_is_digit)
  next
    case False
    then show ?thesis
      using 1 by (subst show_nat.simps) (simp add: digit_char_is_digit)
  qed
qed

lemma show_nat_not_Nil: "show_nat n \<noteq> []"
  by (subst show_nat.simps) simp

lemma nat_of_digits_snoc: "nat_of_digits (ds @ [c]) = 10 * nat_of_digits ds + digit_val c"
  by (simp add: nat_of_digits_def)

lemma nat_of_digits_show_nat: "nat_of_digits (show_nat n) = n"
proof (induction n rule: show_nat.induct)
  case (1 n)
  show ?case
  proof (cases "n < 10")
    case True
    then show ?thesis
      by (subst show_nat.simps) (simp add: nat_of_digits_def digit_val_digit_char)
  next
    case False
    then show ?thesis
      using 1 by (subst show_nat.simps) (simp add: nat_of_digits_snoc digit_val_digit_char)
  qed
qed

lemma dash_not_digit: "\<not> is_digit (CHR ''-'')"
  by (simp add: is_digit_def)

lemma continuation_chunk_name:
  assumes "0 < i"
  shows "continuation (chunk_name name i) = Some (name, i)"
proof -
  let ?ds = "show_nat i"
  have r: "rev (chunk_name name i) = rev ?ds @ CHR ''-'' # rev name"
    using assms by (simp add: chunk_name_def)
  have d: "\<And>c. c \<in> set (rev ?ds) \<Longrightarrow> is_digit c"
    using show_nat_digits [of i] by (simp add: list_all_iff)
  have t: "takeWhile is_digit (rev ?ds @ CHR ''-'' # rev name) = rev ?ds"
    by (subst takeWhile_append2 [OF d]) (simp_all add: dash_not_digit)
  have dr: "dropWhile is_digit (rev ?ds @ CHR ''-'' # rev name) = CHR ''-'' # rev name"
    by (subst dropWhile_append2 [OF d]) (simp_all add: dash_not_digit)
  show ?thesis
    unfolding continuation_def r Let_def t dr
    by (simp add: show_nat_not_Nil nat_of_digits_show_nat)
qed

text \<open>The pieces of a value, and the physical entries they are carried by.\<close>

lemma concat_chunks: "0 < n \<Longrightarrow> concat (chunks n s) = s"
proof (induction n s rule: chunks.induct)
  case (1 n s)
  show ?case
  proof (cases "s = []")
    case True
    then show ?thesis by (subst chunks.simps) simp
  next
    case False
    then show ?thesis
      using 1 by (subst chunks.simps) simp
  qed
qed

lemma chunks_not_Nil: "0 < n \<Longrightarrow> s \<noteq> [] \<Longrightarrow> chunks n s \<noteq> []"
  by (subst chunks.simps) simp

lemma chunks_bounded: "c \<in> set (chunks n s) \<Longrightarrow> length c \<le> n"
proof (induction n s arbitrary: c rule: chunks.induct)
  case (1 n s)
  from "1.prems" have ne: "\<not> (n = 0 \<or> s = [])"
    by (subst (asm) chunks.simps) (auto split: if_splits)
  from "1.prems" ne have "c = take n s \<or> c \<in> set (chunks n (drop n s))"
    by (subst (asm) chunks.simps) auto
  then show ?case
    using "1.IH" [OF ne] by auto
qed

lemma number_chunks_map:
  "number_chunks name i cs = map (\<lambda>j. (chunk_name name (i + j), cs ! j)) [0..<length cs]"
proof (induction cs arbitrary: i)
  case Nil
  then show ?case by simp
next
  case (Cons c cs)
  have "[0..<length (c # cs)] = 0 # map Suc [0..<length cs]"
    by (simp add: upt_conv_Cons map_Suc_upt del: upt_Suc)
  then show ?case
    using Cons.IH [of "Suc i"] by (simp add: comp_def del: upt_Suc)
qed

lemma pieces_not_Nil:
  assumes "0 < T"
  shows "pieces T v \<noteq> []"
proof (cases "length v \<le> T")
  case True
  then show ?thesis by (simp add: pieces_def)
next
  case False
  then have "v \<noteq> []" by auto
  then show ?thesis
    using False chunks_not_Nil [OF assms] by (simp add: pieces_def)
qed

lemma concat_pieces: "0 < T \<Longrightarrow> concat (pieces T v) = v"
  by (simp add: pieces_def concat_chunks)

lemma split_header_map:
  "split_header T h =
     map (\<lambda>j. (chunk_name (fst h) j, pieces T (snd h) ! j)) [0..<length (pieces T (snd h))]"
  by (simp add: split_header_def number_chunks_map)

lemma chunk_name_0: "chunk_name name 0 = name"
  by (simp add: chunk_name_def)

lemma name_in_split:
  assumes "0 < T" and "h \<in> set hs"
  shows "fst h \<in> fst ` set (splitHeaders T hs)"
proof -
  have "0 < length (pieces T (snd h))"
    using pieces_not_Nil [OF assms(1)] by simp
  then have "(chunk_name (fst h) 0, pieces T (snd h) ! 0) \<in> set (split_header T h)"
    unfolding split_header_map by (auto simp: image_iff intro!: bexI [of _ 0])
  then have "(fst h, pieces T (snd h) ! 0) \<in> set (splitHeaders T hs)"
    using assms(2) by (auto simp: splitHeaders_def chunk_name_0)
  then show ?thesis
    by (auto simp: image_iff intro!: bexI [of _ "(fst h, pieces T (snd h) ! 0)"])
qed

lemma chunk_key_split:
  assumes "0 < T" and "unambiguous hs" and "h \<in> set hs" and "j < length (pieces T (snd h))"
  shows "chunk_key (splitHeaders T hs) (chunk_name (fst h) j) = Inr (fst h, j)"
proof (cases "j = 0")
  case True
  from assms(2) assms(3) have "continuation (fst h) = None"
    unfolding unambiguous_def list_all_iff by blast
  then show ?thesis
    using True by (simp add: chunk_key_def chunk_name_0)
next
  case False
  then have "continuation (chunk_name (fst h) j) = Some (fst h, j)"
    by (simp add: continuation_chunk_name)
  then show ?thesis
    using name_in_split [OF assms(1) assms(3)] by (simp add: chunk_key_def)
qed

lemma collect_Inr: "collect (map Inr xs) = Inr xs"
  by (induction xs) simp_all

lemma collect_Inl:
  assumes "Inl e \<in> set rs" and "\<And>e'. Inl e' \<in> set rs \<Longrightarrow> e' = e"
  shows "collect rs = Inl e"
  using assms
proof (induction rs)
  case Nil
  then show ?case by simp
next
  case (Cons r rs)
  show ?case
  proof (cases r)
    case (Inl e')
    have "e' = e"
      by (rule Cons.prems(2)) (simp add: Inl)
    then show ?thesis
      by (simp add: Inl)
  next
    case (Inr x)
    have m: "Inl e \<in> set rs"
      using Cons.prems(1) Inr by simp
    have "collect rs = Inl e"
    proof (rule Cons.IH [OF m])
      fix e'
      assume "Inl e' \<in> set rs"
      then show "e' = e"
        using Cons.prems(2) [of e'] by simp
    qed
    then show ?thesis
      using Inr by simp
  qed
qed

text \<open>The physical entries of a split under their keys, in the order of the logical entries.\<close>

lemma keyed_split_header:
  assumes "0 < T" and "unambiguous hs" and "h \<in> set hs"
  shows "map (\<lambda>p. case chunk_key (splitHeaders T hs) (fst p) of
                     Inl e \<Rightarrow> Inl e
                   | Inr k \<Rightarrow> Inr (k, snd p)) (split_header T h) =
           map Inr (keyed_pieces T h)"
  unfolding split_header_map keyed_pieces_def
  by (simp add: chunk_key_split [OF assms] del: upt_Suc)

lemma keyed_split:
  assumes "0 < T" and "unambiguous hs"
  shows "keyed (splitHeaders T hs) = Inr (concat (map (keyed_pieces T) hs))"
proof -
  define S where "S = splitHeaders T hs"
  have per: "map (\<lambda>p. case chunk_key S (fst p) of
                         Inl e \<Rightarrow> Inl e
                       | Inr k \<Rightarrow> Inr (k, snd p)) (split_header T h) =
               map Inr (keyed_pieces T h)" if "h \<in> set hs" for h
    unfolding S_def by (rule keyed_split_header [OF assms that])
  have "map (\<lambda>p. case chunk_key S (fst p) of
                    Inl e \<Rightarrow> Inl e
                  | Inr k \<Rightarrow> Inr (k, snd p)) (splitHeaders T hs) =
          map Inr (concat (map (keyed_pieces T) hs))"
    by (simp add: splitHeaders_def map_concat per cong: map_cong)
  then have "keyed S = Inr (concat (map (keyed_pieces T) hs))"
    by (simp only: keyed_def S_def [symmetric] collect_Inr)
  then show ?thesis
    by (simp only: S_def)
qed

lemma set_first_occurrences: "set (first_occurrences xs) = set xs"
  by (induction xs) auto

lemma filter_absent: "x \<notin> set xs \<Longrightarrow> filter (\<lambda>y. y \<noteq> x) xs = xs"
  by (induction xs) auto

lemma first_occurrences_replicate:
  "first_occurrences (replicate (Suc m) x @ ys) = x # filter (\<lambda>y. y \<noteq> x) (first_occurrences ys)"
  by (induction m) simp_all

lemma first_occurrences_blocks:
  assumes "distinct (map fst hs)" and "\<forall>h \<in> set hs. 0 < k h"
  shows "first_occurrences (concat (map (\<lambda>h. replicate (k h) (fst h)) hs)) = map fst hs"
  using assms
proof (induction hs)
  case Nil
  then show ?case by simp
next
  case (Cons h hs)
  from Cons.prems obtain m where m: "k h = Suc m"
    by (cases "k h") auto
  have ih: "first_occurrences (concat (map (\<lambda>h. replicate (k h) (fst h)) hs)) = map fst hs"
    using Cons by simp
  have "fst h \<notin> set (map fst hs)"
    using Cons.prems by simp
  then have "filter (\<lambda>y. y \<noteq> fst h) (map fst hs) = map fst hs"
    by (rule filter_absent)
  then show ?case
    by (simp add: m first_occurrences_replicate ih del: replicate.simps)
qed

lemma group_names_split:
  "map (\<lambda>p. fst (fst p)) (concat (map (keyed_pieces T) hs)) =
     concat (map (\<lambda>h. replicate (length (pieces T (snd h))) (fst h)) hs)"
  by (simp add: map_concat keyed_pieces_def comp_def map_replicate_const)

lemma select_block:
  assumes "distinct (map fst hs)" and "h \<in> set hs"
  shows "concat (map (\<lambda>h'. if fst h' = fst h then B h' else []) hs) = B h"
  using assms
proof (induction hs)
  case Nil
  then show ?case by simp
next
  case (Cons a hs)
  show ?case
  proof (cases "a = h")
    case True
    have "fst h' \<noteq> fst h" if "h' \<in> set hs" for h'
      using Cons.prems(1) True that by (auto simp: image_iff)
    then have "concat (map (\<lambda>h'. if fst h' = fst h then B h' else []) hs) = []"
      by simp
    then show ?thesis
      using True by simp
  next
    case False
    then have "h \<in> set hs"
      using Cons.prems(2) by simp
    moreover from this have "fst a \<noteq> fst h"
      using Cons.prems(1) by (auto simp: image_iff)
    ultimately show ?thesis
      using Cons by simp
  qed
qed

lemma group_of_split:
  assumes "distinct (map fst hs)" and "h \<in> set hs"
  shows "filter (\<lambda>p. fst (fst p) = fst h) (concat (map (keyed_pieces T) hs)) = keyed_pieces T h"
proof -
  have "filter (\<lambda>p. fst (fst p) = fst h) (keyed_pieces T h')
          = (if fst h' = fst h then keyed_pieces T h' else [])" for h'
    by (auto simp: keyed_pieces_def filter_empty_conv filter_id_conv)
  then have "filter (\<lambda>p. fst (fst p) = fst h) (concat (map (keyed_pieces T) hs))
          = concat (map (\<lambda>h'. if fst h' = fst h then keyed_pieces T h' else []) hs)"
    by (simp add: filter_concat comp_def)
  then show ?thesis
    by (simp add: select_block [OF assms])
qed

lemma join_group_split:
  assumes "0 < T" and "distinct (map fst hs)" and "h \<in> set hs"
  shows "join_group (concat (map (keyed_pieces T) hs)) (fst h) = Inr h"
proof -
  let ?ps = "pieces T (snd h)"
  let ?g = "map (\<lambda>j. (j, ?ps ! j)) [0..<length ?ps]"
  have k: "map (\<lambda>p. (snd (fst p), snd p)) (keyed_pieces T h) = ?g"
    by (simp add: keyed_pieces_def)
  have f: "map fst ?g = [0..<length ?ps]"
    by (simp add: comp_def)
  have s: "sort_key fst ?g = ?g"
    by (rule sort_key_id_if_sorted) (simp only: f sorted_upt)
  have v: "concat (map snd ?g) = snd h"
    using concat_pieces [OF assms(1), of "snd h"] by (simp add: comp_def map_nth)
  show ?thesis
    unfolding join_group_def group_of_split [OF assms(2) assms(3)] k Let_def s
    by (simp only: f v length_map length_upt) simp
qed

lemma join_split:
  assumes "0 < T" and "unambiguous hs"
  shows "joinHeaders (splitHeaders T hs) = Inr hs"
proof -
  have d: "distinct (map fst hs)"
    using assms(2) by (simp add: unambiguous_def)
  have n: "first_occurrences (map (\<lambda>p. fst (fst p)) (concat (map (keyed_pieces T) hs)))
      = map fst hs"
    unfolding group_names_split
    by (rule first_occurrences_blocks [OF d]) (simp add: pieces_not_Nil [OF assms(1)])
  have "map (join_group (concat (map (keyed_pieces T) hs))) (map fst hs) = map Inr hs"
    by (simp add: join_group_split [OF assms(1) d] cong: map_cong)
  then show ?thesis
    by (simp only: joinHeaders_def keyed_split [OF assms] sum.case n collect_Inr)
qed

text \<open>A numbered continuation whose base header is absent makes the join fail.\<close>

lemma chunk_key_error: "chunk_key hs name = Inl e \<Longrightarrow> e = CodecError"
  by (auto simp: chunk_key_def split: option.splits if_splits)

lemma join_stray:
  assumes "p \<in> set hs" and "continuation (fst p) = Some (b, n)" and "b \<notin> fst ` set hs"
  shows "joinHeaders hs = Inl CodecError"
proof -
  let ?rs = "map (\<lambda>p. case chunk_key hs (fst p) of
                         Inl e \<Rightarrow> Inl e
                       | Inr k \<Rightarrow> Inr (k, snd p)) hs"
  have "chunk_key hs (fst p) = Inl CodecError"
    using assms(2) assms(3) by (simp add: chunk_key_def)
  then have 1: "Inl CodecError \<in> set ?rs"
    using assms(1) by (force simp: image_iff)
  have 2: "e' = CodecError" if "Inl e' \<in> set ?rs" for e'
    using that chunk_key_error by (fastforce split: sum.splits)
  have "keyed hs = Inl CodecError"
    unfolding keyed_def by (rule collect_Inl [OF 1 2])
  then show ?thesis
    by (simp add: joinHeaders_def)
qed

lemma split_bounded:
  assumes "p \<in> set (splitHeaders T hs)"
  shows "length (snd p) \<le> T"
proof -
  from assms obtain h where "p \<in> set (split_header T h)"
    by (auto simp: splitHeaders_def)
  then obtain j where j: "j < length (pieces T (snd h))" and p: "snd p = pieces T (snd h) ! j"
    unfolding split_header_map by auto
  from j have "pieces T (snd h) ! j \<in> set (pieces T (snd h))"
    by simp
  then show ?thesis
    unfolding p by (auto simp: pieces_def chunks_bounded split: if_splits)
qed

text \<open>
  C2, as amended. For a positive threshold and a logical collection whose names are
  distinct and none of which has the form of a numbered continuation, joining the split
  gives back the collection exactly, whatever the lengths of the values; and the split
  leaves no physical value longer than the threshold.
\<close>

theorem join_split_roundtrip:
  assumes "0 < threshold" and "unambiguous hs"
  shows "joinHeaders (splitHeaders threshold hs) = Inr hs
       \<and> (\<forall>p \<in> set (splitHeaders threshold hs). length (snd p) \<le> threshold)"
  using join_split [OF assms] split_bounded by blast

lemma show_nat_1: "show_nat 1 = ''1''"
  by (subst show_nat.simps) (simp add: digit_char_def)

lemma show_nat_2: "show_nat 2 = ''2''"
  by (subst show_nat.simps) (simp add: digit_char_def)

lemma show_nat_Suc_0: "show_nat (Suc 0) = ''1''"
  using show_nat_1 by simp

lemma show_nat_Suc_Suc_0: "show_nat (Suc (Suc 0)) = ''2''"
  using show_nat_2 by (simp add: numeral_2_eq_2)

lemmas show_nat_small = show_nat_1 show_nat_2 show_nat_Suc_0 show_nat_Suc_Suc_0

lemma split_long_headers:
  "splitHeaders 4 long_headers =
     [(''x-bare-headers'', ''0123''), (''x-bare-headers-1'', ''4567''),
      (''x-bare-headers-2'', ''89''), (''x-bare-url'', ''u'')]"
  by (simp add: splitHeaders_def split_header_def pieces_def chunks.simps chunk_name_def
      show_nat_small long_headers_def)

lemma continuation_evals:
  "continuation ''x-bare-headers'' = None" "continuation ''x-bare-url'' = None"
  "continuation ''a'' = None" "continuation ''a-1'' = Some (''a'', 1)"
  "continuation ''a-2'' = Some (''a'', 2)"
  by (simp_all add: continuation_def is_digit_def nat_of_digits_def digit_val_def)

theorem join_split_roundtrip_witness:
  "(0::nat) < 4 \<and> unambiguous long_headers
   \<and> splitHeaders 4 long_headers =
       [(''x-bare-headers'', ''0123''), (''x-bare-headers-1'', ''4567''),
        (''x-bare-headers-2'', ''89''), (''x-bare-url'', ''u'')]
   \<and> joinHeaders [(''x-bare-headers'', ''0123''), (''x-bare-headers-1'', ''4567''),
        (''x-bare-headers-2'', ''89''), (''x-bare-url'', ''u'')] = Inr long_headers"
proof -
  have u: "unambiguous long_headers"
    by (simp add: unambiguous_def continuation_evals long_headers_def)
  have z: "(0::nat) < 4"
    by simp
  from join_split_roundtrip [OF z u] u split_long_headers
  show ?thesis
    by simp
qed

theorem join_split_counterexample:
  "splitHeaders example_threshold clashing_headers = [(''a'', ''x''), (''a-1'', ''y'')]
   \<and> joinHeaders (splitHeaders example_threshold clashing_headers) = Inr [(''a'', ''xy'')]
   \<and> splitHeaders example_threshold stray_headers = [(''a-1'', ''y''), (''a-2'', ''z'')]
   \<and> joinHeaders (splitHeaders example_threshold stray_headers) = Inl CodecError"
proof -
  have s: "splitHeaders example_threshold clashing_headers = [(''a'', ''x''), (''a-1'', ''y'')]"
    by (simp add: splitHeaders_def split_header_def pieces_def chunk_name_def
        clashing_headers_def example_threshold_def)
  have j: "joinHeaders [(''a'', ''x''), (''a-1'', ''y'')] = Inr [(''a'', ''xy'')]"
    by (simp add: joinHeaders_def keyed_def join_group_def chunk_key_def continuation_evals)
  have s': "splitHeaders example_threshold stray_headers = [(''a-1'', ''y''), (''a-2'', ''z'')]"
    by (simp add: splitHeaders_def split_header_def pieces_def chunk_name_def
        stray_headers_def example_threshold_def)
  have j': "joinHeaders [(''a-1'', ''y''), (''a-2'', ''z'')] = Inl CodecError"
    by (simp add: joinHeaders_def keyed_def chunk_key_def continuation_evals)
  show ?thesis
    using s j s' j' by simp
qed

section \<open>The outbound headers\<close>

text \<open>The object that \<^verbatim>\<open>Object.fromEntries\<close> builds: the last value of a name wins.\<close>

lemma map_of_replace_value:
  "map_of (replace_value k v ps) k' =
     (if k' = k \<and> k \<in> fst ` set ps then Some v else map_of ps k')"
  by (induction ps) force+

lemma map_of_insert_index:
  "k \<notin> fst ` set ps \<Longrightarrow>
     map_of (insert_index i k v ps) k' = (if k' = k then Some v else map_of ps k')"
  by (induction ps) (auto split: option.splits)

lemma map_of_obj_set:
  "map_of (obj_set ps k v) k' = (if k' = k then Some v else map_of ps k')"
proof (cases "k \<in> fst ` set ps")
  case True
  then show ?thesis
    by (simp add: obj_set_def map_of_replace_value)
next
  case False
  then have "map_of ps k = None"
    by (simp add: map_of_eq_None_iff)
  then show ?thesis
    using False
    by (auto simp: obj_set_def map_of_insert_index map_add_def split: option.splits)
qed

lemma map_of_fold_obj_set:
  "map_of (foldl (\<lambda>obj e. obj_set obj (fst e) (snd e)) acc es) k =
     (case map_of (rev es) k of None \<Rightarrow> map_of acc k | Some v \<Rightarrow> Some v)"
  by (induction es arbitrary: acc) (auto simp: map_of_obj_set map_add_def split: option.splits)

lemma map_of_Object_fromEntries: "map_of (Object_fromEntries es) k = map_of (rev es) k"
  by (simp add: Object_fromEntries_def map_of_fold_obj_set split: option.splits)

lemma fold_obj_set_plain:
  assumes "distinct (map fst (acc @ es))" and "\<forall>k \<in> set (map fst es). array_index k = None"
  shows "foldl (\<lambda>obj e. obj_set obj (fst e) (snd e)) acc es = acc @ es"
  using assms
proof (induction es arbitrary: acc)
  case Nil
  then show ?case by simp
next
  case (Cons e es)
  have "obj_set acc (fst e) (snd e) = acc @ [e]"
    using Cons.prems by (auto simp: obj_set_def)
  then show ?case
    using Cons.IH [of "acc @ [e]"] Cons.prems by simp
qed

lemma Object_fromEntries_plain:
  "distinct (map fst es) \<Longrightarrow> \<forall>k \<in> set (map fst es). array_index k = None \<Longrightarrow>
     Object_fromEntries es = es"
  using fold_obj_set_plain [of "[]" es] by (simp add: Object_fromEntries_def)

lemma map_of_JString:
  "map_of (map (\<lambda>p. (fst p, JString (snd p))) ps) k = map_option JString (map_of ps k)"
  by (induction ps) auto

lemma headers_object_members:
  "\<exists>ms. headers_object l = JObject ms
     \<and> (\<forall>k. map_of ms k = map_option JString (map_of (rev l) k))
     \<and> (distinct (map fst l) \<and> (\<forall>k \<in> set (map fst l). array_index k = None)
          \<longrightarrow> ms = map (\<lambda>p. (fst p, JString (snd p))) l)"
  by (auto simp: headers_object_def map_of_JString map_of_Object_fromEntries
      Object_fromEntries_plain)

text \<open>What \<^verbatim>\<open>createBareHeaders\<close> builds for \<^verbatim>\<open>request\<close>.\<close>

lemma lower_names:
  "lower ''x-bare-url'' = ''x-bare-url''" "lower ''x-bare-headers'' = ''x-bare-headers''"
  by (simp_all add: lower_def lower_char_def)

lemma createBareHeaders_plain:
  "createBareHeaders T remote bareHeaders [] [] [] =
     [(''x-bare-url'', href remote),
      (''x-bare-headers'', JSON_stringify (headers_object bareHeaders))]"
  by (simp add: createBareHeaders_def Headers_set_def Headers_get_def lower_names)

lemma joinHeaders_bare:
  "joinHeaders [(''x-bare-url'', a), (''x-bare-headers'', b)] =
     Inr [(''x-bare-url'', a), (''x-bare-headers'', b)]"
  by (simp add: joinHeaders_def keyed_def join_group_def chunk_key_def continuation_evals)

lemma request_o_headers:
  "o_headers (fetch_options (request T digest fetch this remote m body hs sg)) =
     createBareHeaders T remote (hs @ [(''Host'', host remote)]) [] [] []"
  by (simp add: request_def Let_def)

text \<open>
  C4, as amended. The \<^verbatim>\<open>x-bare-headers\<close> value that \<^verbatim>\<open>request\<close> hands to
  \<^verbatim>\<open>fetch\<close> (the tunnel reads the same value back with the join), and the
  \<^verbatim>\<open>headers\<close> field of the Connect control message that \<^verbatim>\<open>connect\<close> sends
  when the socket opens, are the JSON text of the object built from the collection after
  the injection. That object has one member for every name of the collection, with the
  value of the name's last pair; when the names are distinct and none is an array-index
  numeral, its members are exactly the pairs of the collection, in order.
\<close>

theorem outbound_headers:
  "o_headers (fetch_options (request threshold digest fetch this remote m body hs sg))
     = [(''x-bare-url'', href remote),
        (''x-bare-headers'', JSON_stringify (headers_object (hs @ [(''Host'', host remote)])))]
   \<and> joinHeaders (o_headers (fetch_options (request threshold digest fetch this remote m body hs sg)))
     = Inr [(''x-bare-url'', href remote),
            (''x-bare-headers'', JSON_stringify (headers_object (hs @ [(''Host'', host remote)])))]
   \<and> (\<forall>hs' c. connect this u ps hs = Inr (hs', c) \<longrightarrow>
         hs' = hs @ [(''Host'', host u), (''Upgrade'', ''websocket''), (''Connection'', ''Upgrade'')]
       \<and> raw_sends (trace c [SocketOpen]) =
           [Text (JSON_stringify
              (JObject [(''type'', JString ''connect''), (''remote'', JString (href u)),
                        (''protocols'', JArray (map JString ps)),
                        (''headers'', headers_object hs'),
                        (''forwardHeaders'', JArray [])]))])
   \<and> (\<forall>l. \<exists>ms. headers_object l = JObject ms
         \<and> (\<forall>k. map_of ms k = map_option JString (map_of (rev l) k))
         \<and> (distinct (map fst l) \<and> (\<forall>k \<in> set (map fst l). array_index k = None)
              \<longrightarrow> ms = map (\<lambda>p. (fst p, JString (snd p))) l))"
proof -
  have 1: "o_headers (fetch_options (request threshold digest fetch this remote m body hs sg))
     = [(''x-bare-url'', href remote),
        (''x-bare-headers'', JSON_stringify (headers_object (hs @ [(''Host'', host remote)])))]"
    by (simp only: request_o_headers createBareHeaders_plain)
  have 2: "hs' = hs @ [(''Host'', host u), (''Upgrade'', ''websocket''), (''Connection'', ''Upgrade'')]
           \<and> raw_sends (trace c [SocketOpen]) =
               [Text (JSON_stringify
                  (JObject [(''type'', JString ''connect''), (''remote'', JString (href u)),
                            (''protocols'', JArray (map JString ps)),
                            (''headers'', headers_object hs'),
                            (''forwardHeaders'', JArray [])]))]"
    if c: "connect this u ps hs = Inr (hs', c)" for hs' c
  proof -
    note i = connect_initial [OF c]
    have "hs' = hs @ [(''Host'', host u), (''Upgrade'', ''websocket''), (''Connection'', ''Upgrade'')]"
      using c by (auto simp: connect_def Let_def split: sum.splits)
    moreover have "raw_sends (trace c [SocketOpen]) = [Text (JSON_stringify (connect_message c))]"
      using i by (simp add: raw_sends_trace)
    moreover have "connect_message c =
        JObject [(''type'', JString ''connect''), (''remote'', JString (href u)),
                 (''protocols'', JArray (map JString ps)), (''headers'', headers_object hs'),
                 (''forwardHeaders'', JArray [])]"
      using i by (simp add: connect_message_def)
    ultimately show ?thesis
      by simp
  qed
  show ?thesis
    unfolding 1 using 2 headers_object_members joinHeaders_bare by blast
qed

lemma headers_object_accept:
  "headers_object ([(''accept'', ''*/*'')] @ [(''Host'', host example_remote)]) =
     JObject [(''accept'', JString ''*/*''), (''Host'', JString ''example.com'')]"
  by (simp add: headers_object_def Object_fromEntries_def obj_set_def array_index_def
      is_digit_def host_example_remote)

lemma headers_object_repeated:
  "headers_object (repeated_headers @ [(''Host'', host example_remote)]) =
     JObject [(''a'', JString ''2''), (''Host'', JString ''example.com'')]"
  by (simp add: headers_object_def Object_fromEntries_def obj_set_def array_index_def
      is_digit_def host_example_remote repeated_headers_def)

lemma stringify_accept:
  "JSON_stringify (JObject [(''accept'', JString ''*/*''), (''Host'', JString ''example.com'')])
     = accept_headers_text"
  by (simp add: quote_def quote_char_def accept_headers_text_def)

lemma stringify_collapsed:
  "JSON_stringify (JObject [(''a'', JString ''2''), (''Host'', JString ''example.com'')])
     = collapsed_headers_text"
  by (simp add: quote_def quote_char_def collapsed_headers_text_def)

lemma parse_accept_headers_text:
  "JSON_parse accept_headers_text =
     Inr (JObject [(''accept'', JString ''*/*''), (''Host'', JString ''example.com'')])"
  by (simp add: accept_headers_text_def json_eval)

theorem outbound_headers_witness:
  "joinHeaders (o_headers (fetch_options
        (request example_threshold example_md5 (fetch_returning bare_response)
           (ClientV3_constructor example_base) example_remote ''GET'' None [(''accept'', ''*/*'')] None)))
       = Inr [(''x-bare-url'', ''https://example.com/a''), (''x-bare-headers'', accept_headers_text)]
   \<and> JSON_parse accept_headers_text =
       Inr (JObject [(''accept'', JString ''*/*''), (''Host'', JString ''example.com'')])
   \<and> connect (ClientV3_constructor example_base) example_remote [''chat''] [(''accept'', ''*/*'')]
       = Inr (requestHeaders example_connection, example_connection)
   \<and> raw_sends (trace example_connection [SocketOpen]) = [Text connect_frame_text]
   \<and> distinct (map fst (requestHeaders example_connection))
   \<and> headers_object (requestHeaders example_connection) =
       JObject (map (\<lambda>p. (fst p, JString (snd p))) (requestHeaders example_connection))"
proof -
  note t = outbound_headers [of example_threshold example_md5 "fetch_returning bare_response"
      "ClientV3_constructor example_base" example_remote "''GET''" None "[(''accept'', ''*/*'')]"
      None example_remote "[''chat'']"]
  have r: "requestHeaders example_connection =
      [(''accept'', ''*/*''), (''Host'', ''example.com''), (''Upgrade'', ''websocket''),
       (''Connection'', ''Upgrade'')]"
    by (simp add: example_connection_def)
  have d: "distinct (map fst (requestHeaders example_connection))
      \<and> (\<forall>k \<in> set (map fst (requestHeaders example_connection)). array_index k = None)"
    by (simp add: r array_index_def is_digit_def)
  from t have "joinHeaders (o_headers (fetch_options
        (request example_threshold example_md5 (fetch_returning bare_response)
           (ClientV3_constructor example_base) example_remote ''GET'' None [(''accept'', ''*/*'')] None)))
       = Inr [(''x-bare-url'', href example_remote),
              (''x-bare-headers'',
               JSON_stringify (headers_object ([(''accept'', ''*/*'')] @ [(''Host'', host example_remote)])))]"
    by blast
  then have 1: "joinHeaders (o_headers (fetch_options
        (request example_threshold example_md5 (fetch_returning bare_response)
           (ClientV3_constructor example_base) example_remote ''GET'' None [(''accept'', ''*/*'')] None)))
       = Inr [(''x-bare-url'', ''https://example.com/a''), (''x-bare-headers'', accept_headers_text)]"
    by (simp only: headers_object_accept stringify_accept href_example_remote)
  from t connect_example
  have "raw_sends (trace example_connection [SocketOpen]) =
      [Text (JSON_stringify
         (JObject [(''type'', JString ''connect''), (''remote'', JString (href example_remote)),
                   (''protocols'', JArray (map JString [''chat''])),
                   (''headers'', headers_object (requestHeaders example_connection)),
                   (''forwardHeaders'', JArray [])]))]"
    by blast
  then have 2: "raw_sends (trace example_connection [SocketOpen]) = [Text connect_frame_text]"
    using stringify_connect_message_example
    by (simp add: connect_message_def example_connection_def)
  from t obtain ms where ms: "headers_object (requestHeaders example_connection) = JObject ms"
    and pl: "distinct (map fst (requestHeaders example_connection))
        \<and> (\<forall>k \<in> set (map fst (requestHeaders example_connection)). array_index k = None)
      \<longrightarrow> ms = map (\<lambda>p. (fst p, JString (snd p))) (requestHeaders example_connection)"
    by blast
  from ms pl d have 3: "headers_object (requestHeaders example_connection) =
       JObject (map (\<lambda>p. (fst p, JString (snd p))) (requestHeaders example_connection))"
    by blast
  show ?thesis
    using 1 2 3 d connect_example parse_accept_headers_text by blast
qed

theorem outbound_headers_counterexample:
  "repeated_headers = [(''a'', ''1''), (''a'', ''2'')]
   \<and> o_headers (fetch_options
        (request example_threshold example_md5 (fetch_returning bare_response)
           (ClientV3_constructor example_base) example_remote ''GET'' None repeated_headers None))
       = [(''x-bare-url'', ''https://example.com/a''), (''x-bare-headers'', collapsed_headers_text)]
   \<and> JSON_parse collapsed_headers_text =
       Inr (JObject [(''a'', JString ''2''), (''Host'', JString ''example.com'')])"
proof -
  have 1: "o_headers (fetch_options
        (request example_threshold example_md5 (fetch_returning bare_response)
           (ClientV3_constructor example_base) example_remote ''GET'' None repeated_headers None))
       = [(''x-bare-url'', ''https://example.com/a''), (''x-bare-headers'', collapsed_headers_text)]"
    by (simp only: request_o_headers createBareHeaders_plain headers_object_repeated
        stringify_collapsed href_example_remote)
  have 2: "JSON_parse collapsed_headers_text =
       Inr (JObject [(''a'', JString ''2''), (''Host'', JString ''example.com'')])"
    by (simp add: collapsed_headers_text_def json_eval)
  show ?thesis
    using 1 2 by (simp add: repeated_headers_def)
qed

end
